theory Spec2Isabelle
  imports Complex_Main
begin

section \<open>Values shared by the scripts\<close>

text \<open>
  The repository holds three generations of one Shelly script that turns button edges
  into HTTP commands for a dimmer: the multi-binding \<^verbatim>\<open>DimmerController\<close> (with its
  configuration loader), the single-binding \<^verbatim>\<open>remote-dimmer2.js\<close>, and an older
  single-binding script that ramps the brightness itself from a repeating timer.
  All three share the five states and the transition table below. (A fourth script,
  printed after the multi-binding one, is \<^verbatim>\<open>remote-dimmer2.js\<close> with the state
  starting as \<^verbatim>\<open>IDLE\<close> and no credentials; it is not modelled apart.)

  Time is what \<^verbatim>\<open>Date.now()\<close> returns, a rational number of milliseconds, and
  \<open>round\<close> is \<^verbatim>\<open>Math.round\<close> (half up). Every handler runs to its end at one
  reading of the clock; the calls and timers it leaves behind are completed later by
  the host, in any order, each running the callback it was given.
\<close>

datatype state = IDLE | GET_LIGHT_STATUS | WAITING_FOR_LONG_PUSH | ENSURE_LIGHT_IS_ON | DIMMING

fun TRANSITIONS :: "state \<Rightarrow> state list" where
  "TRANSITIONS IDLE = [GET_LIGHT_STATUS, IDLE]"
| "TRANSITIONS GET_LIGHT_STATUS = [WAITING_FOR_LONG_PUSH, IDLE]"
| "TRANSITIONS WAITING_FOR_LONG_PUSH = [ENSURE_LIGHT_IS_ON, IDLE]"
| "TRANSITIONS ENSURE_LIGHT_IS_ON = [DIMMING, IDLE]"
| "TRANSITIONS DIMMING = [DIMMING, IDLE]"

text \<open>The value of each \<^verbatim>\<open>STATES\<close> entry is the string of its own name.\<close>

fun state_name :: "state \<Rightarrow> string" where
  "state_name IDLE = ''IDLE''"
| "state_name GET_LIGHT_STATUS = ''GET_LIGHT_STATUS''"
| "state_name WAITING_FOR_LONG_PUSH = ''WAITING_FOR_LONG_PUSH''"
| "state_name ENSURE_LIGHT_IS_ON = ''ENSURE_LIGHT_IS_ON''"
| "state_name DIMMING = ''DIMMING''"

abbreviation LIGHT_ACTIONS_ON :: string where "LIGHT_ACTIONS_ON \<equiv> ''on''"
abbreviation LIGHT_ACTIONS_OFF :: string where "LIGHT_ACTIONS_OFF \<equiv> ''off''"
abbreviation LIGHT_ACTIONS_TOGGLE :: string where "LIGHT_ACTIONS_TOGGLE \<equiv> ''toggle''"

abbreviation DIMMER_ACTIONS_STOP :: string where "DIMMER_ACTIONS_STOP \<equiv> ''stop''"
abbreviation DIMMER_ACTIONS_UP :: string where "DIMMER_ACTIONS_UP \<equiv> ''up''"
abbreviation DIMMER_ACTIONS_DOWN :: string where "DIMMER_ACTIONS_DOWN \<equiv> ''down''"

abbreviation LONG_PUSH_TIME :: int where "LONG_PUSH_TIME \<equiv> 500"
abbreviation INPUT_COMPONENT_PREFIX :: string where "INPUT_COMPONENT_PREFIX \<equiv> ''input:''"
abbreviation REMOTE_DIMMER_CONFIG_KEY :: string where
  "REMOTE_DIMMER_CONFIG_KEY \<equiv> ''remote-dimmer-config''"

text \<open>
  An exception that no handler of the scripts catches. A handler that returns \<open>Inl\<close>
  has thrown: the host stops the script, and what the script's variables held is not
  modelled further.
\<close>

datatype error = TypeError | SyntaxError

text \<open>What \<^verbatim>\<open>print\<close> is given; the log is the list of the argument lists.\<close>

datatype jsval = Str string | Bool bool | Num int | Undefined

text \<open>
  A text handed to \<^verbatim>\<open>JSON.parse\<close>: either it is not JSON, and the call throws, or
  it denotes a value of the shape the script goes on to read.
\<close>

datatype 'a json_text = Malformed | Json 'a

definition JSON_parse :: "'a json_text \<Rightarrow> error + 'a" where
  "JSON_parse t = (case t of Malformed \<Rightarrow> Inl SyntaxError | Json v \<Rightarrow> Inr v)"

text \<open>The status object of the device (\<^verbatim>\<open>GET /light/0\<close>), the two fields the scripts read.\<close>

record light_status =
  ison :: bool
  brightness :: int

text \<open>
  The result object of an \<^verbatim>\<open>http.get\<close> call. The callback's first argument is
  \<open>None\<close> when the host passes null or undefined, and reading a property of it throws.
\<close>

record http_response =
  code :: int
  message :: string
  body :: "light_status json_text"

text \<open>A status notification of the host: \<^verbatim>\<open>e.component\<close> and \<^verbatim>\<open>e.delta.state\<close>
  (\<open>None\<close> when the delta carries neither true nor false).\<close>

record event =
  component :: string
  delta_state :: "bool option"

definition startsWith :: "string \<Rightarrow> string \<Rightarrow> bool" where
  "startsWith str prefix = (take (length prefix) str = prefix)"

definition callOk :: "int \<Rightarrow> bool" where
  "callOk error_code = (error_code = 0)"

text \<open>\<^verbatim>\<open>callOk(error_code) && (response.code >= 200 && response.code < 300)\<close>: the
  response is read only when the call succeeded.\<close>

definition httpOk :: "int \<Rightarrow> http_response option \<Rightarrow> error + bool" where
  "httpOk error_code response =
     (if callOk error_code
      then (case response of
              None \<Rightarrow> Inl TypeError
            | Some r \<Rightarrow> Inr (200 \<le> code r \<and> code r < 300))
      else Inr False)"

text \<open>Dropping the \<open>n\<close>-th entry of a list of outstanding calls or armed timers.\<close>

definition remove_nth :: "nat \<Rightarrow> 'a list \<Rightarrow> 'a list" where
  "remove_nth n xs = take n xs @ drop (Suc n) xs"

section \<open>The multi-binding controller\<close>

record credentials =
  cred_id :: string
  cred_pw :: string

text \<open>
  \<^verbatim>\<open>dev.auth\<close> as JSON gives it: null (or absent), a string, or an object. The loader
  replaces a string that starts with \<^verbatim>\<open>@\<close> by the object stored under that key.
\<close>

datatype auth = AuthNull | AuthString string | AuthObject credentials

record device_config =
  addr :: string
  auth :: auth

datatype status_callback = OnLightStatus | OnSwitchedOn | OnToggled
datatype plain_callback = Nop | OnDimStopped
datatype request =
    GetLightStatus status_callback
  | SwitchLight string status_callback
  | DimLight string plain_callback
datatype timer_callback = OnLongPushTimer

text \<open>
  The fields of a \<^verbatim>\<open>DimmerController\<close>, and what the host holds for it: the
  \<^verbatim>\<open>http.get\<close> calls in flight (URL and the callback to resume), the armed timers
  (delay in ms, repeat flag, callback) and the printed lines.
\<close>

record controller =
  c_id :: string
  c_inputMapping :: "string \<rightharpoonup> string"
  c_deviceConfig :: device_config
  c_state :: "state option"
  c_inputTriggerTime :: rat
  c_dimmerAction :: string
  c_lightStatus :: "light_status option"
  c_calls :: "(string \<times> request) list"
  c_timers :: "(int \<times> bool \<times> timer_callback) list"
  c_log :: "jsval list list"

definition DimmerController :: "string \<Rightarrow> (string \<rightharpoonup> string) \<Rightarrow> device_config \<Rightarrow> controller" where
  "DimmerController i inputMapping deviceConfig =
     \<lparr>c_id = i, c_inputMapping = inputMapping, c_deviceConfig = deviceConfig,
      c_state = None, c_inputTriggerTime = 0, c_dimmerAction = DIMMER_ACTIONS_STOP,
      c_lightStatus = None, c_calls = [], c_timers = [], c_log = []\<rparr>"

definition print :: "jsval list \<Rightarrow> controller \<Rightarrow> controller" where
  "print args c = c\<lparr>c_log := c_log c @ [args]\<rparr>"

text \<open>
  The basic-auth part of the URL. A truthy \<^verbatim>\<open>auth\<close> that is a string has neither
  \<^verbatim>\<open>id\<close> nor \<^verbatim>\<open>pw\<close>, and both concatenate as \<^verbatim>\<open>undefined\<close>.
\<close>

definition auth_prefix :: "auth \<Rightarrow> string" where
  "auth_prefix a =
     (case a of
        AuthNull \<Rightarrow> []
      | AuthString s \<Rightarrow> (if s = [] then [] else ''undefined:undefined@'')
      | AuthObject cr \<Rightarrow> cred_id cr @ '':'' @ cred_pw cr @ ''@'')"

definition request_url :: "string \<Rightarrow> device_config \<Rightarrow> string" where
  "request_url endpointPath deviceConfig =
     ''http://'' @ auth_prefix (auth deviceConfig) @ addr deviceConfig @ ''/'' @ endpointPath"

definition sendRequest :: "string \<Rightarrow> device_config \<Rightarrow> request \<Rightarrow> controller \<Rightarrow> controller" where
  "sendRequest endpointPath deviceConfig callback c =
     c\<lparr>c_calls := c_calls c @ [(request_url endpointPath deviceConfig, callback)]\<rparr>"

definition getLightStatus :: "device_config \<Rightarrow> status_callback \<Rightarrow> controller \<Rightarrow> controller" where
  "getLightStatus deviceConfig callback c =
     sendRequest ''light/0'' deviceConfig (GetLightStatus callback) c"

definition switchLight :: "device_config \<Rightarrow> string \<Rightarrow> status_callback \<Rightarrow> controller \<Rightarrow> controller" where
  "switchLight deviceConfig action callback c =
     sendRequest (''light/0?turn='' @ action) deviceConfig (SwitchLight action callback) c"

definition dimLight :: "device_config \<Rightarrow> string \<Rightarrow> plain_callback \<Rightarrow> controller \<Rightarrow> controller" where
  "dimLight deviceConfig action callback c =
     sendRequest (''light/0?dim='' @ action @ (if action \<noteq> DIMMER_ACTIONS_STOP then ''&step=100'' else ''''))
       deviceConfig (DimLight action callback) c"

definition enterIdle :: "controller \<Rightarrow> controller" where
  "enterIdle c = c\<lparr>c_inputTriggerTime := 0, c_dimmerAction := DIMMER_ACTIONS_STOP\<rparr>"

definition enterGetLightStatus :: "controller \<Rightarrow> controller" where
  "enterGetLightStatus c = getLightStatus (c_deviceConfig c) OnLightStatus c"

text \<open>\<^verbatim>\<open>Timer.set(Math.max(1, LONG_PUSH_TIME - Math.round(Date.now() - this._inputTriggerTime)), false, ...)\<close>;
  \<open>now\<close> is what \<^verbatim>\<open>Date.now()\<close> returns while the handler runs.\<close>

definition long_push_delay :: "int \<Rightarrow> rat \<Rightarrow> rat \<Rightarrow> int" where
  "long_push_delay longPushTime now inputTriggerTime =
     max 1 (longPushTime - round (now - inputTriggerTime))"

definition enterWaitingForLongPush :: "rat \<Rightarrow> controller \<Rightarrow> controller" where
  "enterWaitingForLongPush now c =
     c\<lparr>c_timers := c_timers c @
        [(long_push_delay LONG_PUSH_TIME now (c_inputTriggerTime c), False, OnLongPushTimer)]\<rparr>"

definition enterDimming :: "controller \<Rightarrow> controller" where
  "enterDimming c = dimLight (c_deviceConfig c) (c_dimmerAction c) Nop c"

text \<open>\<^verbatim>\<open>this._state && TRANSITIONS[this._state].indexOf(state) === -1\<close>: a null state
  admits every request.\<close>

definition rejected :: "state option \<Rightarrow> state \<Rightarrow> bool" where
  "rejected cur st = (case cur of None \<Rightarrow> False | Some s \<Rightarrow> st \<notin> set (TRANSITIONS s))"

definition state_text :: "state option \<Rightarrow> string" where
  "state_text cur = (case cur of None \<Rightarrow> ''null'' | Some s \<Rightarrow> state_name s)"

function transitionTo :: "rat \<Rightarrow> state \<Rightarrow> controller \<Rightarrow> error + controller"
  and enterEnsureLightIsOn :: "rat \<Rightarrow> controller \<Rightarrow> error + controller" where
  "transitionTo now st c =
     (if rejected (c_state c) st then Inr c
      else
        let c1 = print [Str (''['' @ c_id c @ '']: transitioning from '' @ state_text (c_state c)
                               @ '' to '' @ state_name st)] c;
            c2 = c1\<lparr>c_state := Some st\<rparr>
        in (case st of
              GET_LIGHT_STATUS \<Rightarrow> Inr (enterGetLightStatus c2)
            | WAITING_FOR_LONG_PUSH \<Rightarrow> Inr (enterWaitingForLongPush now c2)
            | ENSURE_LIGHT_IS_ON \<Rightarrow> enterEnsureLightIsOn now c2
            | DIMMING \<Rightarrow> Inr (enterDimming c2)
            | IDLE \<Rightarrow> Inr (enterIdle c2)))"
| "enterEnsureLightIsOn now c =
     (case c_lightStatus c of
        None \<Rightarrow> Inl TypeError
      | Some ls \<Rightarrow>
          if \<not> ison ls
          then Inr (switchLight (c_deviceConfig c) LIGHT_ACTIONS_ON OnSwitchedOn c)
          else transitionTo now DIMMING c)"
  by pat_completeness auto
termination
  by (relation "measure (\<lambda>x. case x of
          Inl (now, st, c) \<Rightarrow> (if st = ENSURE_LIGHT_IS_ON then 2 else 0)
        | Inr (now, c) \<Rightarrow> 1)") auto

declare transitionTo.simps [simp del]
declare enterEnsureLightIsOn.simps [simp del]

text \<open>The closures handed to the request functions, run when the response is in.\<close>

fun run_status_callback :: "rat \<Rightarrow> status_callback \<Rightarrow> light_status \<Rightarrow> controller \<Rightarrow> error + controller" where
  "run_status_callback now OnLightStatus lightStatus c =
     transitionTo now WAITING_FOR_LONG_PUSH (c\<lparr>c_lightStatus := Some lightStatus\<rparr>)"
| "run_status_callback now OnSwitchedOn lightStatus c =
     transitionTo now DIMMING (c\<lparr>c_lightStatus := Some lightStatus\<rparr>)"
| "run_status_callback now OnToggled lightStatus c =
     transitionTo now IDLE (c\<lparr>c_lightStatus := Some lightStatus\<rparr>)"

fun run_plain_callback :: "rat \<Rightarrow> plain_callback \<Rightarrow> controller \<Rightarrow> error + controller" where
  "run_plain_callback now Nop c = Inr c"
| "run_plain_callback now OnDimStopped c = transitionTo now IDLE c"

text \<open>
  The response handlers of \<^verbatim>\<open>getLightStatus\<close>, \<^verbatim>\<open>switchLight\<close> and
  \<^verbatim>\<open>dimLight\<close>. Each prints and returns when \<^verbatim>\<open>httpOk\<close> fails; the print reads
  \<^verbatim>\<open>response.message\<close>.
\<close>

definition failed :: "string \<Rightarrow> string \<Rightarrow> http_response option \<Rightarrow> controller \<Rightarrow> error + controller" where
  "failed what error_message response c =
     (case response of
        None \<Rightarrow> Inl TypeError
      | Some r \<Rightarrow> Inr (print [Str what, Str error_message, Str (message r)] c))"

definition parsed_body :: "http_response option \<Rightarrow> error + light_status" where
  "parsed_body response =
     (case response of None \<Rightarrow> Inl TypeError | Some r \<Rightarrow> JSON_parse (body r))"

definition getLightStatus_response ::
  "status_callback \<Rightarrow> http_response option \<Rightarrow> int \<Rightarrow> string \<Rightarrow> rat \<Rightarrow> controller \<Rightarrow> error + controller" where
  "getLightStatus_response callback response error_code error_message now c =
     (case httpOk error_code response of
        Inl x \<Rightarrow> Inl x
      | Inr ok \<Rightarrow>
          if \<not> ok then failed ''Failed to get light status'' error_message response c
          else (case parsed_body response of
                  Inl x \<Rightarrow> Inl x
                | Inr b \<Rightarrow>
                    run_status_callback now callback b
                      (print [Str ''getLightStatus'', Bool (ison b), Num (brightness b)] c)))"

definition switchLight_response ::
  "string \<Rightarrow> status_callback \<Rightarrow> http_response option \<Rightarrow> int \<Rightarrow> string \<Rightarrow> rat \<Rightarrow> controller \<Rightarrow> error + controller" where
  "switchLight_response action callback response error_code error_message now c =
     (case httpOk error_code response of
        Inl x \<Rightarrow> Inl x
      | Inr ok \<Rightarrow>
          if \<not> ok then failed ''Failed to switch light'' error_message response c
          else (case parsed_body response of
                  Inl x \<Rightarrow> Inl x
                | Inr b \<Rightarrow>
                    run_status_callback now callback b
                      (print [Str ''switchLight'', Str action, Bool (ison b), Num (brightness b)] c)))"

definition dimLight_response ::
  "string \<Rightarrow> plain_callback \<Rightarrow> http_response option \<Rightarrow> int \<Rightarrow> string \<Rightarrow> rat \<Rightarrow> controller \<Rightarrow> error + controller" where
  "dimLight_response action callback response error_code error_message now c =
     (case httpOk error_code response of
        Inl x \<Rightarrow> Inl x
      | Inr ok \<Rightarrow>
          if \<not> ok then failed ''Failed to dim light'' error_message response c
          else run_plain_callback now callback (print [Str ''dimLight'', Str action] c))"

fun request_done ::
  "request \<Rightarrow> http_response option \<Rightarrow> int \<Rightarrow> string \<Rightarrow> rat \<Rightarrow> controller \<Rightarrow> error + controller" where
  "request_done (GetLightStatus callback) = getLightStatus_response callback"
| "request_done (SwitchLight action callback) = switchLight_response action callback"
| "request_done (DimLight action callback) = dimLight_response action callback"

text \<open>The host completes the \<open>n\<close>-th call in flight and runs its callback.\<close>

definition httpDone ::
  "nat \<Rightarrow> http_response option \<Rightarrow> int \<Rightarrow> string \<Rightarrow> rat \<Rightarrow> controller \<Rightarrow> error + controller" where
  "httpDone n response error_code error_message now c =
     (if n < length (c_calls c)
      then request_done (snd (c_calls c ! n)) response error_code error_message now
             (c\<lparr>c_calls := remove_nth n (c_calls c)\<rparr>)
      else Inr c)"

text \<open>The host fires the \<open>n\<close>-th armed timer; a one-shot timer is disarmed by firing.\<close>

definition timerFired :: "nat \<Rightarrow> rat \<Rightarrow> controller \<Rightarrow> error + controller" where
  "timerFired n now c =
     (if n < length (c_timers c)
      then (case c_timers c ! n of
              (delay, repeat, OnLongPushTimer) \<Rightarrow>
                transitionTo now ENSURE_LIGHT_IS_ON
                  (if repeat then c else c\<lparr>c_timers := remove_nth n (c_timers c)\<rparr>))
      else Inr c)"

definition handleInputEvent :: "rat \<Rightarrow> event \<Rightarrow> controller \<Rightarrow> error + controller" where
  "handleInputEvent now e c =
     (if \<not> startsWith (component e) INPUT_COMPONENT_PREFIX then Inr c
      else
        let inputIndex = drop (length INPUT_COMPONENT_PREFIX) (component e) in
        (case c_inputMapping c inputIndex of
           None \<Rightarrow> Inr c
         | Some action \<Rightarrow>
             let c1 = print [Str (''['' @ c_id c @ '']: ---> input event''), Str (component e),
                             (case delta_state e of None \<Rightarrow> Undefined | Some b \<Rightarrow> Bool b)] c
             in (case delta_state e of
                   Some True \<Rightarrow>
                     (case (if c_state c1 \<noteq> Some IDLE then transitionTo now IDLE c1 else Inr c1) of
                        Inl x \<Rightarrow> Inl x
                      | Inr c2 \<Rightarrow>
                          transitionTo now GET_LIGHT_STATUS
                            (c2\<lparr>c_inputTriggerTime := now, c_dimmerAction := action\<rparr>))
                 | Some False \<Rightarrow>
                     if c_state c1 = Some WAITING_FOR_LONG_PUSH \<or> c_state c1 = Some GET_LIGHT_STATUS
                     then Inr (switchLight (c_deviceConfig c1) LIGHT_ACTIONS_TOGGLE OnToggled c1)
                     else if c_state c1 = Some DIMMING
                     then Inr (dimLight (c_deviceConfig c1) DIMMER_ACTIONS_STOP OnDimStopped c1)
                     else transitionTo now IDLE c1
                 | None \<Rightarrow> Inr c1)))"

text \<open>Everything the host can deliver to one controller, and a run of deliveries, each at
  its own reading of the clock. A run stops at the first exception.\<close>

datatype controller_event =
    Input event
  | HttpDone nat "http_response option" int string
  | TimerFired nat

fun step :: "rat \<Rightarrow> controller_event \<Rightarrow> controller \<Rightarrow> error + controller" where
  "step now (Input e) c = handleInputEvent now e c"
| "step now (HttpDone n response error_code error_message) c =
     httpDone n response error_code error_message now c"
| "step now (TimerFired n) c = timerFired n now c"

fun steps :: "(rat \<times> controller_event) list \<Rightarrow> controller \<Rightarrow> error + controller" where
  "steps [] c = Inr c"
| "steps ((now, ev) # evs) c =
     (case step now ev c of Inl x \<Rightarrow> Inl x | Inr c' \<Rightarrow> steps evs c')"

section \<open>The configuration loader of the multi-binding script\<close>

record configuration =
  cfg_id :: "string option"
  btn :: "string \<rightharpoonup> string"
  dev :: device_config

text \<open>
  The three arguments a \<^verbatim>\<open>KVS.Get\<close> callback reads: the response (\<open>None\<close> when the
  host passes none, otherwise the stored text that is its \<^verbatim>\<open>value\<close>), the error code
  and the error message.
\<close>

record 'a kvs_reply =
  reply_value :: "'a json_text option"
  reply_error_code :: int
  reply_error_message :: string

text \<open>
  The closure of \<^verbatim>\<open>getConfiguration\<close>: \<^verbatim>\<open>configurations\<close> and \<^verbatim>\<open>toProcess\<close>
  (declared when the configuration arrives), the credential lookups in flight (the key
  asked for, and the index of the configuration the callback is bound to), the printed
  lines, and the part of the script that \<^verbatim>\<open>callback\<close> acts on.
\<close>

record 'u loader =
  l_configurations :: "configuration list"
  l_toProcess :: int
  l_kvs :: "(string \<times> nat) list"
  l_log :: "jsval list list"
  l_app :: 'u

definition lprint :: "jsval list \<Rightarrow> 'u loader \<Rightarrow> 'u loader" where
  "lprint args l = l\<lparr>l_log := l_log l @ [args]\<rparr>"

definition id_text :: "string option \<Rightarrow> jsval" where
  "id_text i = (case i of None \<Rightarrow> Undefined | Some s \<Rightarrow> Str s)"

definition proceedIfAllProcessed ::
  "(configuration list \<Rightarrow> 'u \<Rightarrow> 'u) \<Rightarrow> 'u loader \<Rightarrow> 'u loader" where
  "proceedIfAllProcessed callback l =
     (if l_toProcess l = 0
      then l\<lparr>l_toProcess := - 1, l_app := callback (l_configurations l) (l_app l)\<rparr>
      else l)"

text \<open>\<^verbatim>\<open>config.dev.auth && startsWith(config.dev.auth, "@")\<close>: null and the empty string
  are falsy; an object is truthy and has no \<^verbatim>\<open>substring\<close> method to call.\<close>

definition is_reference :: "auth \<Rightarrow> error + bool" where
  "is_reference a =
     (case a of
        AuthNull \<Rightarrow> Inr False
      | AuthString s \<Rightarrow> Inr (s \<noteq> [] \<and> startsWith s ''@'')
      | AuthObject cr \<Rightarrow> Inl TypeError)"

definition auth_text :: "auth \<Rightarrow> string" where
  "auth_text a = (case a of AuthString s \<Rightarrow> s | _ \<Rightarrow> [])"

text \<open>The \<^verbatim>\<open>for\<close> loop over \<^verbatim>\<open>configurations\<close>, from index \<open>i\<close> on.\<close>

fun process_configurations :: "nat \<Rightarrow> configuration list \<Rightarrow> 'u loader \<Rightarrow> error + 'u loader" where
  "process_configurations i [] l = Inr l"
| "process_configurations i (config # rest) l =
     (case is_reference (auth (dev config)) of
        Inl x \<Rightarrow> Inl x
      | Inr True \<Rightarrow>
          let authKey = drop 1 (auth_text (auth (dev config)));
              l1 = lprint [Str ''Getting device credentials from KVS'', id_text (cfg_id config),
                           Str authKey] l
          in process_configurations (Suc i) rest (l1\<lparr>l_kvs := l_kvs l1 @ [(authKey, i)]\<rparr>)
      | Inr False \<Rightarrow>
          process_configurations (Suc i) rest (l\<lparr>l_toProcess := l_toProcess l - 1\<rparr>))"

text \<open>The script right after \<^verbatim>\<open>getConfiguration(callback)\<close> has asked for the
  configuration.\<close>

definition getConfiguration :: "'u \<Rightarrow> 'u loader" where
  "getConfiguration u =
     \<lparr>l_configurations = [], l_toProcess = 0, l_kvs = [], l_log = [], l_app = u\<rparr>"

definition configuration_response ::
  "(configuration list \<Rightarrow> 'u \<Rightarrow> 'u) \<Rightarrow> (configuration list) kvs_reply \<Rightarrow> 'u loader
     \<Rightarrow> error + 'u loader" where
  "configuration_response callback reply l =
     (if \<not> callOk (reply_error_code reply)
      then Inr (lprint [Str ''Failed to get configuration from KVS'',
                        Str (reply_error_message reply)] l)
      else (case reply_value reply of
              None \<Rightarrow> Inl TypeError
            | Some t \<Rightarrow>
                (case JSON_parse t of
                   Inl x \<Rightarrow> Inl x
                 | Inr configurations \<Rightarrow>
                     (case process_configurations 0 configurations
                             (l\<lparr>l_configurations := configurations,
                                l_toProcess := int (length configurations)\<rparr>) of
                        Inl x \<Rightarrow> Inl x
                      | Inr l' \<Rightarrow> Inr (proceedIfAllProcessed callback l')))))"

definition set_auth :: "auth \<Rightarrow> configuration \<Rightarrow> configuration" where
  "set_auth a config = config\<lparr>dev := (dev config)\<lparr>auth := a\<rparr>\<rparr>"

text \<open>The callback of a credential lookup, bound to configuration \<open>i\<close>.\<close>

definition credentials_response ::
  "(configuration list \<Rightarrow> 'u \<Rightarrow> 'u) \<Rightarrow> nat \<Rightarrow> credentials kvs_reply \<Rightarrow> 'u loader
     \<Rightarrow> error + 'u loader" where
  "credentials_response callback i reply l =
     (case (if callOk (reply_error_code reply)
            then (let l1 = lprint [Str ''Got device credentials from KVS''] l
                  in (case reply_value reply of
                        None \<Rightarrow> Inl TypeError
                      | Some t \<Rightarrow>
                          (case JSON_parse t of
                             Inl x \<Rightarrow> Inl x
                           | Inr cr \<Rightarrow>
                               Inr (l1\<lparr>l_configurations :=
                                      (l_configurations l1)[i := set_auth (AuthObject cr)
                                                                   (l_configurations l1 ! i)]\<rparr>))))
            else
              let l1 = lprint [Str ''Failed to get device credentials from KVS'',
                               Str (reply_error_message reply)] l
              in Inr (l1\<lparr>l_configurations :=
                       (l_configurations l1)[i := set_auth AuthNull (l_configurations l1 ! i)]\<rparr>)) of
        Inl x \<Rightarrow> Inl x
      | Inr l2 \<Rightarrow> Inr (proceedIfAllProcessed callback (l2\<lparr>l_toProcess := l_toProcess l2 - 1\<rparr>)))"

text \<open>
  The store answers the \<open>n\<close>-th lookup in flight: \<open>store key\<close> is what
  \<^verbatim>\<open>KVS.Get\<close> hands the callback for that key.
\<close>

definition credentials_done ::
  "(configuration list \<Rightarrow> 'u \<Rightarrow> 'u) \<Rightarrow> (string \<Rightarrow> credentials kvs_reply) \<Rightarrow> nat \<Rightarrow> 'u loader
     \<Rightarrow> error + 'u loader" where
  "credentials_done callback store n l =
     (if n < length (l_kvs l)
      then credentials_response callback (snd (l_kvs l ! n)) (store (fst (l_kvs l ! n)))
             (l\<lparr>l_kvs := remove_nth n (l_kvs l)\<rparr>)
      else Inr l)"

text \<open>Lookups answered one after the other, each named by its place among those still
  in flight.\<close>

fun credentials_all ::
  "(configuration list \<Rightarrow> 'u \<Rightarrow> 'u) \<Rightarrow> (string \<Rightarrow> credentials kvs_reply) \<Rightarrow> nat list \<Rightarrow> 'u loader
     \<Rightarrow> error + 'u loader" where
  "credentials_all callback store [] l = Inr l"
| "credentials_all callback store (n # ns) l =
     (case credentials_done callback store n l of
        Inl x \<Rightarrow> Inl x
      | Inr l' \<Rightarrow> credentials_all callback store ns l')"

subsection \<open>\<^verbatim>\<open>main\<close>: one controller per configuration\<close>

definition digit_char :: "nat \<Rightarrow> char" where
  "digit_char d = ''0123456789'' ! (d mod 10)"

function string_of_nat :: "nat \<Rightarrow> string" where
  "string_of_nat n =
     (if n < 10 then [digit_char n] else string_of_nat (n div 10) @ [digit_char (n mod 10)])"
  by pat_completeness auto
termination
  by (relation "measure (\<lambda>n. n)") auto

declare string_of_nat.simps [simp del]

definition string_of_int :: "int \<Rightarrow> string" where
  "string_of_int k = (if k < 0 then ''-'' @ string_of_nat (nat (- k)) else string_of_nat (nat k))"

text \<open>\<^verbatim>\<open>config[i].id || ("dimmer-" + i)\<close>\<close>

definition controller_id :: "string option \<Rightarrow> nat \<Rightarrow> string" where
  "controller_id i n =
     (case i of
        None \<Rightarrow> ''dimmer-'' @ string_of_nat n
      | Some s \<Rightarrow> if s = [] then ''dimmer-'' @ string_of_nat n else s)"

text \<open>What \<^verbatim>\<open>main\<close>'s callback builds: the controllers whose \<^verbatim>\<open>handleInputEvent\<close> is
  registered as a status handler, and the lines it prints (\<^verbatim>\<open>controller.id\<close> is not a
  field of the controller, so it prints as undefined).\<close>

record app =
  controllers :: "controller list"
  app_log :: "jsval list list"

fun set_up :: "nat \<Rightarrow> configuration list \<Rightarrow> app \<Rightarrow> app" where
  "set_up i [] a = a"
| "set_up i (config # rest) a =
     set_up (Suc i) rest
       (a\<lparr>controllers := controllers a @
             [DimmerController (controller_id (cfg_id config) i) (btn config) (dev config)],
          app_log := app_log a @ [[Str ''Set up dimmer controller'', Undefined]]\<rparr>)"

definition main_callback :: "configuration list \<Rightarrow> app \<Rightarrow> app" where
  "main_callback config a =
     (let a1 = set_up 0 config a
      in a1\<lparr>app_log := app_log a1 @ [[Str ''Remote dimmer controllers initialized'']]\<rparr>)"

definition main :: "app loader" where
  "main = getConfiguration \<lparr>controllers = [], app_log = []\<rparr>"

section \<open>The single-binding script \<^verbatim>\<open>remote-dimmer2.js\<close>\<close>

text \<open>
  One global \<^verbatim>\<open>CONFIG\<close> and one global \<^verbatim>\<open>DATA\<close>. The request functions check no
  error code and no HTTP status: every response runs the callback. The names carry a
  \<open>2\<close> where the multi-binding script has a function of the same name.
\<close>

record config2 =
  dimmerDevice_address :: string
  dimmerDevice_auth :: "string option"
  inputMapping :: "string \<rightharpoonup> string"
  longPushTime :: int

definition CONFIG2 :: config2 where
  "CONFIG2 =
     \<lparr>dimmerDevice_address = ''192.168.3.127'', dimmerDevice_auth = None,
      inputMapping = [''input:0'' \<mapsto> DIMMER_ACTIONS_DOWN, ''input:1'' \<mapsto> DIMMER_ACTIONS_UP],
      longPushTime = 500\<rparr>"

datatype callback2 = Nop2 | ToWaitingForLongPush2 | ToDimming2 | ToIdle2
datatype request2 =
    GetLightStatus2 callback2
  | SwitchLight2 string callback2
  | DimLight2 string callback2

record data2 =
  d_state :: "state option"
  d_inputTriggerTime :: rat
  d_inputAction :: string
  d_lightIsOn :: bool
  d_calls :: "(string \<times> request2) list"
  d_timers :: "(int \<times> bool \<times> timer_callback) list"
  d_log :: "jsval list list"

definition DATA2 :: data2 where
  "DATA2 =
     \<lparr>d_state = None, d_inputTriggerTime = 0, d_inputAction = DIMMER_ACTIONS_STOP,
      d_lightIsOn = False, d_calls = [], d_timers = [], d_log = []\<rparr>"

definition print2 :: "jsval list \<Rightarrow> data2 \<Rightarrow> data2" where
  "print2 args d = d\<lparr>d_log := d_log d @ [args]\<rparr>"

definition sendRequest2 :: "string \<Rightarrow> request2 \<Rightarrow> data2 \<Rightarrow> data2" where
  "sendRequest2 endpointPath callback d =
     d\<lparr>d_calls := d_calls d @
        [(''http://'' @
          (case dimmerDevice_auth CONFIG2 of
             None \<Rightarrow> []
           | Some a \<Rightarrow> if a = [] then [] else a @ ''@'')
          @ dimmerDevice_address CONFIG2 @ ''/'' @ endpointPath, callback)]\<rparr>"

definition getLightStatus2 :: "callback2 \<Rightarrow> data2 \<Rightarrow> data2" where
  "getLightStatus2 callback d = sendRequest2 ''light/0'' (GetLightStatus2 callback) d"

definition switchLight2 :: "string \<Rightarrow> callback2 \<Rightarrow> data2 \<Rightarrow> data2" where
  "switchLight2 action callback d =
     sendRequest2 (''light/0?turn='' @ action) (SwitchLight2 action callback) d"

definition dimLight2 :: "string \<Rightarrow> callback2 \<Rightarrow> data2 \<Rightarrow> data2" where
  "dimLight2 action callback d =
     sendRequest2 (''light/0?dim='' @ action @ (if action \<noteq> DIMMER_ACTIONS_STOP then ''&step=100'' else []))
       (DimLight2 action callback) d"

definition enterIdle2 :: "data2 \<Rightarrow> data2" where
  "enterIdle2 d = d\<lparr>d_inputTriggerTime := 0, d_inputAction := DIMMER_ACTIONS_STOP\<rparr>"

definition enterGetLightStatus2 :: "data2 \<Rightarrow> data2" where
  "enterGetLightStatus2 d = getLightStatus2 ToWaitingForLongPush2 d"

definition enterWaitingForLongPush2 :: "rat \<Rightarrow> data2 \<Rightarrow> data2" where
  "enterWaitingForLongPush2 now d =
     d\<lparr>d_timers := d_timers d @
        [(long_push_delay (longPushTime CONFIG2) now (d_inputTriggerTime d), False, OnLongPushTimer)]\<rparr>"

definition enterDimming2 :: "data2 \<Rightarrow> data2" where
  "enterDimming2 d = dimLight2 (d_inputAction d) Nop2 d"

function transitionTo2 :: "rat \<Rightarrow> state \<Rightarrow> data2 \<Rightarrow> data2"
  and enterEnsureLightIsOn2 :: "rat \<Rightarrow> data2 \<Rightarrow> data2" where
  "transitionTo2 now st d =
     (if rejected (d_state d) st then d
      else
        let d1 = print2 [Str (''Transitioning from '' @ state_text (d_state d)
                               @ '' to '' @ state_name st)] d;
            d2 = d1\<lparr>d_state := Some st\<rparr>
        in (case st of
              GET_LIGHT_STATUS \<Rightarrow> enterGetLightStatus2 d2
            | WAITING_FOR_LONG_PUSH \<Rightarrow> enterWaitingForLongPush2 now d2
            | ENSURE_LIGHT_IS_ON \<Rightarrow> enterEnsureLightIsOn2 now d2
            | DIMMING \<Rightarrow> enterDimming2 d2
            | IDLE \<Rightarrow> enterIdle2 d2))"
| "enterEnsureLightIsOn2 now d =
     (if \<not> d_lightIsOn d then switchLight2 LIGHT_ACTIONS_ON ToDimming2 d
      else transitionTo2 now DIMMING d)"
  by pat_completeness auto
termination
  by (relation "measure (\<lambda>x. case x of
          Inl (now, st, d) \<Rightarrow> (if st = ENSURE_LIGHT_IS_ON then 2 else 0)
        | Inr (now, d) \<Rightarrow> 1)") auto

declare transitionTo2.simps [simp del]
declare enterEnsureLightIsOn2.simps [simp del]

fun run_callback2 :: "rat \<Rightarrow> callback2 \<Rightarrow> data2 \<Rightarrow> data2" where
  "run_callback2 now Nop2 d = d"
| "run_callback2 now ToWaitingForLongPush2 d = transitionTo2 now WAITING_FOR_LONG_PUSH d"
| "run_callback2 now ToDimming2 d = transitionTo2 now DIMMING d"
| "run_callback2 now ToIdle2 d = transitionTo2 now IDLE d"

text \<open>The response handlers. Only \<^verbatim>\<open>getLightStatus\<close> reads the response.\<close>

definition getLightStatus2_response ::
  "callback2 \<Rightarrow> http_response option \<Rightarrow> rat \<Rightarrow> data2 \<Rightarrow> error + data2" where
  "getLightStatus2_response callback response now d =
     (case parsed_body response of
        Inl x \<Rightarrow> Inl x
      | Inr b \<Rightarrow>
          let d1 = d\<lparr>d_lightIsOn := ison b\<rparr>
          in Inr (run_callback2 now callback
                    (print2 [Str ''getLightStatus'', Bool (d_lightIsOn d1), Num (brightness b)] d1)))"

definition switchLight2_response :: "string \<Rightarrow> callback2 \<Rightarrow> rat \<Rightarrow> data2 \<Rightarrow> error + data2" where
  "switchLight2_response action callback now d =
     (let d1 = d\<lparr>d_lightIsOn :=
                   (if action = LIGHT_ACTIONS_ON then True
                    else if action = LIGHT_ACTIONS_TOGGLE then \<not> d_lightIsOn d else False)\<rparr>
      in Inr (run_callback2 now callback
                (print2 [Str ''switchLight'', Str action, Bool (d_lightIsOn d1)] d1)))"

definition dimLight2_response :: "string \<Rightarrow> callback2 \<Rightarrow> rat \<Rightarrow> data2 \<Rightarrow> error + data2" where
  "dimLight2_response action callback now d =
     Inr (run_callback2 now callback (print2 [Str ''dimLight'', Str action] d))"

fun request2_done ::
  "request2 \<Rightarrow> http_response option \<Rightarrow> rat \<Rightarrow> data2 \<Rightarrow> error + data2" where
  "request2_done (GetLightStatus2 callback) response now d =
     getLightStatus2_response callback response now d"
| "request2_done (SwitchLight2 action callback) response now d =
     switchLight2_response action callback now d"
| "request2_done (DimLight2 action callback) response now d =
     dimLight2_response action callback now d"

definition httpDone2 ::
  "nat \<Rightarrow> http_response option \<Rightarrow> int \<Rightarrow> string \<Rightarrow> rat \<Rightarrow> data2 \<Rightarrow> error + data2" where
  "httpDone2 n response error_code error_message now d =
     (if n < length (d_calls d)
      then request2_done (snd (d_calls d ! n)) response now (d\<lparr>d_calls := remove_nth n (d_calls d)\<rparr>)
      else Inr d)"

definition timerFired2 :: "nat \<Rightarrow> rat \<Rightarrow> data2 \<Rightarrow> data2" where
  "timerFired2 n now d =
     (if n < length (d_timers d)
      then (case d_timers d ! n of
              (delay, repeat, OnLongPushTimer) \<Rightarrow>
                transitionTo2 now ENSURE_LIGHT_IS_ON
                  (if repeat then d else d\<lparr>d_timers := remove_nth n (d_timers d)\<rparr>))
      else d)"

definition handleInputEvent2 :: "rat \<Rightarrow> event \<Rightarrow> data2 \<Rightarrow> data2" where
  "handleInputEvent2 now e d =
     (case inputMapping CONFIG2 (component e) of
        None \<Rightarrow> d
      | Some action \<Rightarrow>
          let d1 = print2 [Str ''---> input event'', Str (component e),
                           (case delta_state e of None \<Rightarrow> Undefined | Some b \<Rightarrow> Bool b)] d
          in (case delta_state e of
                Some True \<Rightarrow>
                  let d2 = (if d_state d1 \<noteq> Some IDLE then transitionTo2 now IDLE d1 else d1)
                  in transitionTo2 now GET_LIGHT_STATUS
                       (d2\<lparr>d_inputTriggerTime := now, d_inputAction := action\<rparr>)
              | Some False \<Rightarrow>
                  if d_state d1 = Some WAITING_FOR_LONG_PUSH \<or> d_state d1 = Some GET_LIGHT_STATUS
                  then switchLight2 LIGHT_ACTIONS_TOGGLE ToIdle2 d1
                  else if d_state d1 = Some DIMMING
                  then dimLight2 DIMMER_ACTIONS_STOP ToIdle2 d1
                  else transitionTo2 now IDLE d1
              | None \<Rightarrow> d1))"

text \<open>\<^verbatim>\<open>main\<close> enters \<^verbatim>\<open>IDLE\<close> and registers the handler.\<close>

definition main2 :: "rat \<Rightarrow> data2" where
  "main2 now = transitionTo2 now IDLE DATA2"

section \<open>The single-binding script that ramps the brightness itself\<close>

text \<open>
  The oldest script steps the brightness from a repeating timer instead of asking the
  device to ramp. It keeps the handle of that timer in \<^verbatim>\<open>DATA.timerHandle\<close>; the
  handle of the one-shot long-push timer is dropped. The host gives every
  \<^verbatim>\<open>Timer.set\<close> a fresh handle, and \<^verbatim>\<open>Timer.clear\<close> disarms the timer of that
  handle, if it is still armed. The names carry an \<open>R\<close>.
\<close>

abbreviation CONFIG_dimmerDevice :: string where "CONFIG_dimmerDevice \<equiv> ''http://192.168.3.127/''"
abbreviation CONFIG_minimumBrightness :: int where "CONFIG_minimumBrightness \<equiv> 25"
abbreviation CONFIG_longPushTime :: int where "CONFIG_longPushTime \<equiv> 500"
abbreviation CONFIG_updateInterval :: int where "CONFIG_updateInterval \<equiv> 250"
abbreviation CONFIG_dimmerStep :: int where "CONFIG_dimmerStep \<equiv> 2"

datatype callbackR = NopR | ToWaitingForLongPushR | ToDimmingR
datatype requestR =
    GetLightStatusR callbackR
  | SwitchLightR string callbackR
  | SetLightBrightnessR int callbackR
datatype timer_callbackR = OnLongPushTimerR | DimmingLoopR

record dataR =
  r_timerHandle :: "nat option"
  r_inputTriggerTime :: rat
  r_state :: state
  r_dimmerAction :: string
  r_lightIsOn :: bool
  r_brightness :: int
  r_calls :: "(string \<times> requestR) list"
  r_timers :: "(nat \<times> int \<times> bool \<times> timer_callbackR) list"
  r_nextHandle :: nat
  r_log :: "jsval list list"

definition DATAR :: dataR where
  "DATAR =
     \<lparr>r_timerHandle = None, r_inputTriggerTime = 0, r_state = IDLE,
      r_dimmerAction = DIMMER_ACTIONS_STOP, r_lightIsOn = False,
      r_brightness = CONFIG_minimumBrightness, r_calls = [], r_timers = [],
      r_nextHandle = 0, r_log = []\<rparr>"

definition printR :: "jsval list \<Rightarrow> dataR \<Rightarrow> dataR" where
  "printR args d = d\<lparr>r_log := r_log d @ [args]\<rparr>"

text \<open>\<^verbatim>\<open>Timer.set\<close> arms a timer and returns its handle; \<^verbatim>\<open>Timer.clear(null)\<close> does
  nothing.\<close>

definition Timer_set :: "int \<Rightarrow> bool \<Rightarrow> timer_callbackR \<Rightarrow> dataR \<Rightarrow> nat \<times> dataR" where
  "Timer_set delay repeat callback d =
     (r_nextHandle d,
      d\<lparr>r_timers := r_timers d @ [(r_nextHandle d, delay, repeat, callback)],
        r_nextHandle := Suc (r_nextHandle d)\<rparr>)"

definition Timer_clear :: "nat option \<Rightarrow> dataR \<Rightarrow> dataR" where
  "Timer_clear handle d =
     (case handle of
        None \<Rightarrow> d
      | Some h \<Rightarrow> d\<lparr>r_timers := filter (\<lambda>t. fst t \<noteq> h) (r_timers d)\<rparr>)"

definition sendRequestR :: "string \<Rightarrow> requestR \<Rightarrow> dataR \<Rightarrow> dataR" where
  "sendRequestR url callback d =
     d\<lparr>r_calls := r_calls d @ [(CONFIG_dimmerDevice @ url, callback)]\<rparr>"

definition getLightStatusR :: "callbackR \<Rightarrow> dataR \<Rightarrow> dataR" where
  "getLightStatusR callback d = sendRequestR ''light/0'' (GetLightStatusR callback) d"

definition switchLightR :: "string \<Rightarrow> callbackR \<Rightarrow> dataR \<Rightarrow> dataR" where
  "switchLightR turn callback d =
     sendRequestR (''light/0/set?turn='' @ turn) (SwitchLightR turn callback) d"

definition setLightBrightnessR :: "int \<Rightarrow> callbackR \<Rightarrow> dataR \<Rightarrow> dataR" where
  "setLightBrightnessR b callback d =
     sendRequestR (''light/0/set?brightness='' @ string_of_int b) (SetLightBrightnessR b callback) d"

definition enterIdleR :: "dataR \<Rightarrow> dataR" where
  "enterIdleR d =
     (Timer_clear (r_timerHandle d) d)\<lparr>r_inputTriggerTime := 0, r_dimmerAction := ''stop''\<rparr>"

definition enterGetLightStatusR :: "dataR \<Rightarrow> dataR" where
  "enterGetLightStatusR d = getLightStatusR ToWaitingForLongPushR d"

definition enterWaitingForLongPushR :: "rat \<Rightarrow> dataR \<Rightarrow> dataR" where
  "enterWaitingForLongPushR now d =
     snd (Timer_set (long_push_delay CONFIG_longPushTime now (r_inputTriggerTime d)) False
            OnLongPushTimerR d)"

definition enterDimmingR :: "dataR \<Rightarrow> dataR" where
  "enterDimmingR d =
     (let (h, d1) = Timer_set CONFIG_updateInterval True DimmingLoopR (Timer_clear (r_timerHandle d) d)
      in d1\<lparr>r_timerHandle := Some h\<rparr>)"

function transitionToR :: "rat \<Rightarrow> state \<Rightarrow> dataR \<Rightarrow> dataR"
  and enterEnsureLightIsOnR :: "rat \<Rightarrow> dataR \<Rightarrow> dataR" where
  "transitionToR now st d =
     (if st \<notin> set (TRANSITIONS (r_state d)) then d
      else
        let d2 = d\<lparr>r_state := st\<rparr>
        in (case st of
              GET_LIGHT_STATUS \<Rightarrow> enterGetLightStatusR d2
            | WAITING_FOR_LONG_PUSH \<Rightarrow> enterWaitingForLongPushR now d2
            | ENSURE_LIGHT_IS_ON \<Rightarrow> enterEnsureLightIsOnR now d2
            | DIMMING \<Rightarrow> enterDimmingR d2
            | IDLE \<Rightarrow> enterIdleR d2))"
| "enterEnsureLightIsOnR now d =
     (if \<not> r_lightIsOn d then switchLightR ''on'' ToDimmingR d
      else transitionToR now DIMMING d)"
  by pat_completeness auto
termination
  by (relation "measure (\<lambda>x. case x of
          Inl (now, st, d) \<Rightarrow> (if st = ENSURE_LIGHT_IS_ON then 2 else 0)
        | Inr (now, d) \<Rightarrow> 1)") auto

declare transitionToR.simps [simp del]
declare enterEnsureLightIsOnR.simps [simp del]

definition dimmingLoop :: "rat \<Rightarrow> dataR \<Rightarrow> dataR" where
  "dimmingLoop now d =
     (let previousBrightness = r_brightness d in
      if r_dimmerAction d \<noteq> ''brighten'' \<and> r_dimmerAction d \<noteq> ''darken'' then d
      else
        let d1 = (if r_dimmerAction d = ''brighten''
                  then d\<lparr>r_brightness := r_brightness d + CONFIG_dimmerStep\<rparr>
                  else d\<lparr>r_brightness := r_brightness d - CONFIG_dimmerStep\<rparr>);
            d2 = d1\<lparr>r_brightness := max CONFIG_minimumBrightness (min 100 (r_brightness d1))\<rparr>
        in if r_brightness d2 \<noteq> previousBrightness
           then setLightBrightnessR (r_brightness d2) NopR d2
           else transitionToR now IDLE d2)"

fun run_callbackR :: "rat \<Rightarrow> callbackR \<Rightarrow> dataR \<Rightarrow> dataR" where
  "run_callbackR now NopR d = d"
| "run_callbackR now ToWaitingForLongPushR d = transitionToR now WAITING_FOR_LONG_PUSH d"
| "run_callbackR now ToDimmingR d = transitionToR now DIMMING d"

definition getLightStatusR_response ::
  "callbackR \<Rightarrow> http_response option \<Rightarrow> rat \<Rightarrow> dataR \<Rightarrow> error + dataR" where
  "getLightStatusR_response callback response now d =
     (case parsed_body response of
        Inl x \<Rightarrow> Inl x
      | Inr b \<Rightarrow>
          let d1 = d\<lparr>r_lightIsOn := ison b, r_brightness := brightness b\<rparr>
          in Inr (run_callbackR now callback
                    (printR [Str ''finished getLightStatus'', Bool (r_lightIsOn d1),
                             Num (r_brightness d1)] d1)))"

definition switchLightR_response :: "string \<Rightarrow> callbackR \<Rightarrow> rat \<Rightarrow> dataR \<Rightarrow> error + dataR" where
  "switchLightR_response turn callback now d =
     (let d1 = d\<lparr>r_lightIsOn :=
                   (if turn = ''on'' then True
                    else if turn = ''toggle'' then \<not> r_lightIsOn d else False)\<rparr>
      in Inr (run_callbackR now callback
                (printR [Str ''finished switchLight'', Str turn, Bool (r_lightIsOn d1),
                         Num (r_brightness d1)] d1)))"

definition setLightBrightnessR_response :: "int \<Rightarrow> callbackR \<Rightarrow> rat \<Rightarrow> dataR \<Rightarrow> error + dataR" where
  "setLightBrightnessR_response b callback now d =
     (let d1 = d\<lparr>r_brightness := b\<rparr>
      in Inr (run_callbackR now callback
                (printR [Str ''finished setLightBrightness'', Bool (r_lightIsOn d1),
                         Num (r_brightness d1)] d1)))"

fun requestR_done ::
  "requestR \<Rightarrow> http_response option \<Rightarrow> rat \<Rightarrow> dataR \<Rightarrow> error + dataR" where
  "requestR_done (GetLightStatusR callback) response now d =
     getLightStatusR_response callback response now d"
| "requestR_done (SwitchLightR turn callback) response now d =
     switchLightR_response turn callback now d"
| "requestR_done (SetLightBrightnessR b callback) response now d =
     setLightBrightnessR_response b callback now d"

definition httpDoneR ::
  "nat \<Rightarrow> http_response option \<Rightarrow> int \<Rightarrow> string \<Rightarrow> rat \<Rightarrow> dataR \<Rightarrow> error + dataR" where
  "httpDoneR n response error_code error_message now d =
     (if n < length (r_calls d)
      then requestR_done (snd (r_calls d ! n)) response now (d\<lparr>r_calls := remove_nth n (r_calls d)\<rparr>)
      else Inr d)"

text \<open>The host fires the armed timer of handle \<open>h\<close>; a cleared timer is not armed and
  cannot fire.\<close>

definition timerFiredR :: "nat \<Rightarrow> rat \<Rightarrow> dataR \<Rightarrow> dataR" where
  "timerFiredR h now d =
     (case filter (\<lambda>t. fst t = h) (r_timers d) of
        [] \<Rightarrow> d
      | (h', delay, repeat, callback) # _ \<Rightarrow>
          let d1 = (if repeat then d else d\<lparr>r_timers := filter (\<lambda>t. fst t \<noteq> h) (r_timers d)\<rparr>)
          in (case callback of
                OnLongPushTimerR \<Rightarrow> transitionToR now ENSURE_LIGHT_IS_ON d1
              | DimmingLoopR \<Rightarrow> dimmingLoop now d1))"

definition statusHandlerR :: "rat \<Rightarrow> event \<Rightarrow> dataR \<Rightarrow> dataR" where
  "statusHandlerR now e d =
     (if component e = ''input:0'' \<or> component e = ''input:1''
      then (case delta_state e of
              Some True \<Rightarrow>
                let d1 = (if r_state d \<noteq> IDLE then transitionToR now IDLE d else d)
                in transitionToR now GET_LIGHT_STATUS
                     (d1\<lparr>r_inputTriggerTime := now,
                         r_dimmerAction := (if component e = ''input:1'' then ''brighten'' else ''darken'')\<rparr>)
            | Some False \<Rightarrow>
                if r_state d = WAITING_FOR_LONG_PUSH
                then switchLightR ''toggle'' NopR (transitionToR now IDLE d)
                else d
            | None \<Rightarrow> d)
      else d)"

text \<open>What the host can deliver to this script, and a run of deliveries.\<close>

datatype eventR =
    InputR event
  | HttpDoneR nat "http_response option" int string
  | TimerFiredR nat

fun stepR :: "rat \<Rightarrow> eventR \<Rightarrow> dataR \<Rightarrow> error + dataR" where
  "stepR now (InputR e) d = Inr (statusHandlerR now e d)"
| "stepR now (HttpDoneR n response error_code error_message) d =
     httpDoneR n response error_code error_message now d"
| "stepR now (TimerFiredR h) d = Inr (timerFiredR h now d)"

fun stepsR :: "(rat \<times> eventR) list \<Rightarrow> dataR \<Rightarrow> error + dataR" where
  "stepsR [] d = Inr d"
| "stepsR ((now, ev) # evs) d =
     (case stepR now ev d of Inl x \<Rightarrow> Inl x | Inr d' \<Rightarrow> stepsR evs d')"

section \<open>Notions used to state the properties\<close>

text \<open>
  One call of \<^verbatim>\<open>transitionTo(d)\<close> in state \<open>s\<close> ends in \<open>s'\<close> along the table: the
  state is kept, or the edge \<open>s \<rightarrow> d\<close> is taken, or that edge and then, from
  \<^verbatim>\<open>ENSURE_LIGHT_IS_ON\<close> with the light already on, the edge to \<^verbatim>\<open>DIMMING\<close>.
\<close>

definition follows_table :: "state \<Rightarrow> state \<Rightarrow> state \<Rightarrow> bool" where
  "follows_table s d s' =
     (s' = s \<or> (d \<in> set (TRANSITIONS s) \<and>
        (s' = d \<or> (d = ENSURE_LIGHT_IS_ON \<and> s' = DIMMING \<and> s' \<in> set (TRANSITIONS d)))))"

text \<open>The binding \<^verbatim>\<open>front\<close> of the script's header comment, without credentials, and
  the events and responses the examples run it on.\<close>

definition front_device :: device_config where
  "front_device = \<lparr>addr = ''192.168.3.127'', auth = AuthNull\<rparr>"

definition front :: controller where
  "front = DimmerController ''front'' [''0'' \<mapsto> DIMMER_ACTIONS_DOWN, ''1'' \<mapsto> DIMMER_ACTIONS_UP]
             front_device"

definition front_in :: "state \<Rightarrow> controller" where
  "front_in s = front\<lparr>c_state := Some s\<rparr>"

definition press :: "string \<Rightarrow> event" where
  "press name = \<lparr>component = name, delta_state = Some True\<rparr>"

definition release :: "string \<Rightarrow> event" where
  "release name = \<lparr>component = name, delta_state = Some False\<rparr>"

definition status_ok :: "bool \<Rightarrow> int \<Rightarrow> http_response option" where
  "status_ok on b = Some \<lparr>code = 200, message = ''OK'', body = Json \<lparr>ison = on, brightness = b\<rparr>\<rparr>"

definition status_error :: "int \<Rightarrow> http_response option" where
  "status_error k = Some \<lparr>code = k, message = ''error'', body = Malformed\<rparr>"

text \<open>The controller back in \<^verbatim>\<open>IDLE\<close> while the status fetch of an earlier press is
  still in flight.\<close>

definition idle_with_fetch :: controller where
  "idle_with_fetch =
     (front_in IDLE)\<lparr>c_calls := [(request_url ''light/0'' front_device, GetLightStatus OnLightStatus)]\<rparr>"

text \<open>The example controller with one call in flight: the status fetch of a press, the
  toggle of a short press, the stop of a release.\<close>

definition fetch_in_flight :: controller where
  "fetch_in_flight =
     (front_in GET_LIGHT_STATUS)\<lparr>c_calls :=
        [(request_url ''light/0'' front_device, GetLightStatus OnLightStatus)]\<rparr>"

definition toggle_in_flight :: controller where
  "toggle_in_flight =
     (front_in WAITING_FOR_LONG_PUSH)\<lparr>c_calls :=
        [(request_url ''light/0?turn=toggle'' front_device, SwitchLight LIGHT_ACTIONS_TOGGLE OnToggled)]\<rparr>"

definition stop_in_flight :: controller where
  "stop_in_flight =
     (front_in DIMMING)\<lparr>c_calls :=
        [(request_url ''light/0?dim=stop'' front_device, DimLight DIMMER_ACTIONS_STOP OnDimStopped)]\<rparr>"

definition stop_in_flight2 :: data2 where
  "stop_in_flight2 =
     DATA2\<lparr>d_state := Some DIMMING,
           d_calls := [(''http://192.168.3.127/light/0?dim=stop'', DimLight2 DIMMER_ACTIONS_STOP ToIdle2)]\<rparr>"

definition fetch_in_flight2 :: data2 where
  "fetch_in_flight2 =
     DATA2\<lparr>d_state := Some GET_LIGHT_STATUS,
           d_calls := [(''http://192.168.3.127/light/0'', GetLightStatus2 ToWaitingForLongPush2)]\<rparr>"

subsection \<open>Notions for the loader\<close>

text \<open>The lookups the loop starts for a list of configurations, first index \<open>i\<close>: the
  key asked for and the index of the configuration, in the order of the loop.\<close>

fun references :: "nat \<Rightarrow> configuration list \<Rightarrow> (string \<times> nat) list" where
  "references i [] = []"
| "references i (config # rest) =
     (if is_reference (auth (dev config)) = Inr True
      then (drop 1 (auth_text (auth (dev config))), i) # references (Suc i) rest
      else references (Suc i) rest)"

text \<open>A configuration whose \<^verbatim>\<open>dev.auth\<close> is null or a string.\<close>

definition plain_auth :: "configuration \<Rightarrow> bool" where
  "plain_auth config = (case auth (dev config) of AuthObject cr \<Rightarrow> False | _ \<Rightarrow> True)"

text \<open>An answer of the store that the credential callback can take: a failure, or a
  success whose value parses.\<close>

definition answerable :: "credentials kvs_reply \<Rightarrow> bool" where
  "answerable reply =
     (if callOk (reply_error_code reply)
      then (case reply_value reply of Some (Json cr) \<Rightarrow> True | _ \<Rightarrow> False)
      else True)"

text \<open>An order of answers in which each names a lookup that is in flight when it comes,
  \<open>k\<close> being in flight at the start.\<close>

fun in_flight_order :: "nat list \<Rightarrow> nat \<Rightarrow> bool" where
  "in_flight_order [] k = True"
| "in_flight_order (n # ns) k = (n < k \<and> in_flight_order ns (k - 1))"

text \<open>The loader between two callbacks: either lookups are in flight, \<^verbatim>\<open>toProcess\<close>
  counts them and \<^verbatim>\<open>callback\<close> has not run, or none is, \<^verbatim>\<open>toProcess\<close> is \<open>-1\<close> and
  \<^verbatim>\<open>callback\<close> has run once, on the configurations as they are.\<close>

definition settled :: "(configuration list \<Rightarrow> 'u \<Rightarrow> 'u) \<Rightarrow> 'u \<Rightarrow> 'u loader \<Rightarrow> bool" where
  "settled callback u0 l =
     (if l_kvs l = []
      then l_toProcess l = - 1 \<and> l_app l = callback (l_configurations l) u0
      else l_toProcess l = int (length (l_kvs l)) \<and> l_app l = u0)"

text \<open>A controller of a device at \<open>a\<close> without credentials, all of whose calls in flight
  go to \<^verbatim>\<open>http://a/...\<close>.\<close>

definition unauthenticated :: "string \<Rightarrow> controller \<Rightarrow> bool" where
  "unauthenticated a c =
     (c_deviceConfig c = \<lparr>addr = a, auth = AuthNull\<rparr> \<and>
      (\<forall>call \<in> set (c_calls c). \<exists>path. fst call = ''http://'' @ a @ ''/'' @ path))"

text \<open>The loader while the lookup of configuration \<open>i\<close> is in flight or has failed: the
  lookups in flight are among those started, one for a configuration, and configuration
  \<open>i\<close> keeps its address, name and buttons and, once its lookup is answered, has no
  credentials.\<close>

definition tracked :: "configuration list \<Rightarrow> nat \<Rightarrow> 'u loader \<Rightarrow> bool" where
  "tracked cfgs i l =
     (length (l_configurations l) = length cfgs \<and> distinct (map snd (l_kvs l)) \<and>
      set (l_kvs l) \<subseteq> set (references 0 cfgs) \<and>
      addr (dev (l_configurations l ! i)) = addr (dev (cfgs ! i)) \<and>
      cfg_id (l_configurations l ! i) = cfg_id (cfgs ! i) \<and>
      btn (l_configurations l ! i) = btn (cfgs ! i) \<and>
      (i \<in> snd ` set (l_kvs l) \<or> auth (dev (l_configurations l ! i)) = AuthNull))"

text \<open>The two example bindings of the header comment, and a store that holds the first
  credentials and not the second.\<close>

definition example_configurations :: "configuration list" where
  "example_configurations =
     [\<lparr>cfg_id = Some ''front'',
       btn = [''0'' \<mapsto> DIMMER_ACTIONS_DOWN, ''1'' \<mapsto> DIMMER_ACTIONS_UP],
       dev = \<lparr>addr = ''192.168.3.127'', auth = AuthString ''@credentials1''\<rparr>\<rparr>,
      \<lparr>cfg_id = Some ''back'',
       btn = [''2'' \<mapsto> DIMMER_ACTIONS_DOWN, ''3'' \<mapsto> DIMMER_ACTIONS_UP],
       dev = \<lparr>addr = ''192.168.3.128'', auth = AuthString ''@credentials2''\<rparr>\<rparr>]"

definition example_reply :: "(configuration list) kvs_reply" where
  "example_reply =
     \<lparr>reply_value = Some (Json example_configurations), reply_error_code = 0,
      reply_error_message = []\<rparr>"

definition example_store :: "string \<Rightarrow> credentials kvs_reply" where
  "example_store key =
     (if key = ''credentials1''
      then \<lparr>reply_value = Some (Json \<lparr>cred_id = ''some-user'', cred_pw = ''some-password''\<rparr>),
            reply_error_code = 0, reply_error_message = []\<rparr>
      else \<lparr>reply_value = None, reply_error_code = - 1, reply_error_message = ''not found''\<rparr>)"

text \<open>A configuration with inline credentials.\<close>

definition inline_configurations :: "configuration list" where
  "inline_configurations =
     [\<lparr>cfg_id = Some ''front'',
       btn = [''0'' \<mapsto> DIMMER_ACTIONS_DOWN, ''1'' \<mapsto> DIMMER_ACTIONS_UP],
       dev = \<lparr>addr = ''192.168.3.127'',
              auth = AuthObject \<lparr>cred_id = ''some-user'', cred_pw = ''some-password''\<rparr>\<rparr>\<rparr>]"

text \<open>A store whose first credentials do not parse and whose second are missing, and the
  header's two bindings with inline credentials in the second.\<close>

definition unparseable_store :: "string \<Rightarrow> credentials kvs_reply" where
  "unparseable_store key =
     (if key = ''credentials1''
      then \<lparr>reply_value = Some Malformed, reply_error_code = 0, reply_error_message = []\<rparr>
      else \<lparr>reply_value = None, reply_error_code = - 1, reply_error_message = ''not found''\<rparr>)"

definition mixed_configurations :: "configuration list" where
  "mixed_configurations =
     [\<lparr>cfg_id = Some ''front'',
       btn = [''0'' \<mapsto> DIMMER_ACTIONS_DOWN, ''1'' \<mapsto> DIMMER_ACTIONS_UP],
       dev = \<lparr>addr = ''192.168.3.127'', auth = AuthString ''@credentials2''\<rparr>\<rparr>,
      \<lparr>cfg_id = Some ''back'',
       btn = [''2'' \<mapsto> DIMMER_ACTIONS_DOWN, ''3'' \<mapsto> DIMMER_ACTIONS_UP],
       dev = \<lparr>addr = ''192.168.3.128'',
              auth = AuthObject \<lparr>cred_id = ''some-user'', cred_pw = ''some-password''\<rparr>\<rparr>\<rparr>]"

text \<open>The start of the script as a whole: \<^verbatim>\<open>main\<close> asks for the configuration, the store
  answers with \<open>reply\<close>, and the credential lookups are answered in the order \<open>ns\<close>.\<close>

definition start ::
  "(configuration list) kvs_reply \<Rightarrow> (string \<Rightarrow> credentials kvs_reply) \<Rightarrow> nat list
     \<Rightarrow> error + app loader" where
  "start reply store ns =
     (case configuration_response main_callback reply main of
        Inl x \<Rightarrow> Inl x
      | Inr l1 \<Rightarrow> credentials_all main_callback store ns l1)"

section \<open>Properties\<close>

lemmas controller_defs = print_def sendRequest_def getLightStatus_def switchLight_def dimLight_def
  enterIdle_def enterGetLightStatus_def enterWaitingForLongPush_def enterDimming_def
lemmas data2_defs = print2_def sendRequest2_def getLightStatus2_def switchLight2_def dimLight2_def
  enterIdle2_def enterGetLightStatus2_def enterWaitingForLongPush2_def enterDimming2_def
lemmas dataR_defs = printR_def sendRequestR_def getLightStatusR_def switchLightR_def
  setLightBrightnessR_def enterIdleR_def enterGetLightStatusR_def enterWaitingForLongPushR_def
  enterDimmingR_def Timer_set_def Timer_clear_def
lemmas sample_defs = front_device_def front_def front_in_def press_def release_def
  status_ok_def status_error_def DimmerController_def idle_with_fetch_def fetch_in_flight_def
  toggle_in_flight_def stop_in_flight_def stop_in_flight2_def fetch_in_flight2_def DATA2_def

subsection \<open>The transition guard\<close>

lemma transitionTo_rejected: "rejected (c_state c) st \<Longrightarrow> transitionTo now st c = Inr c"
  by (simp add: transitionTo.simps)

lemma transitionTo2_rejected: "rejected (d_state d) st \<Longrightarrow> transitionTo2 now st d = d"
  by (simp add: transitionTo2.simps)

lemma transitionToR_rejected: "st \<notin> set (TRANSITIONS (r_state d)) \<Longrightarrow> transitionToR now st d = d"
  by (simp add: transitionToR.simps)

lemma transitionTo_state:
  assumes "transitionTo now st c = Inr c'" and "c_state c = Some s"
  shows "\<exists>s'. c_state c' = Some s' \<and> follows_table s st s'"
  using assms
  by (cases st; cases s)
     (auto simp: transitionTo.simps enterEnsureLightIsOn.simps rejected_def follows_table_def
        controller_defs Let_def split: option.splits if_splits)

lemma transitionTo2_state:
  assumes "d_state d = Some s"
  shows "\<exists>s'. d_state (transitionTo2 now st d) = Some s' \<and> follows_table s st s'"
  using assms
  by (cases st; cases s)
     (auto simp: transitionTo2.simps enterEnsureLightIsOn2.simps rejected_def follows_table_def
        data2_defs Let_def split: option.splits if_splits)

lemma transitionToR_state:
  "follows_table (r_state d) st (r_state (transitionToR now st d))"
  by (cases st; cases "r_state d")
     (auto simp: transitionToR.simps enterEnsureLightIsOnR.simps follows_table_def
        dataR_defs Let_def split: option.splits if_splits prod.splits)

text \<open>
  C1. In each of the three scripts, a call of \<^verbatim>\<open>transitionTo(dst)\<close> whose destination
  is not in the table row of the current state \<open>s\<close> returns the script's whole state as
  it was: the machine state, the calls in flight, the armed timers and the log are the
  same, so no entry action ran. Whatever the destination, the state after the call is
  reached from \<open>s\<close> along edges of the table.
\<close>

theorem unlisted_transition_is_ignored:
  "(c_state c = Some s \<longrightarrow>
      (dst \<notin> set (TRANSITIONS s) \<longrightarrow> transitionTo now dst c = Inr c) \<and>
      (\<forall>c'. transitionTo now dst c = Inr c' \<longrightarrow>
             (\<exists>s'. c_state c' = Some s' \<and> follows_table s dst s'))) \<and>
   (d_state d = Some s \<longrightarrow>
      (dst \<notin> set (TRANSITIONS s) \<longrightarrow> transitionTo2 now dst d = d) \<and>
      (\<exists>s'. d_state (transitionTo2 now dst d) = Some s' \<and> follows_table s dst s')) \<and>
   (r_state r = s \<longrightarrow>
      (dst \<notin> set (TRANSITIONS s) \<longrightarrow> transitionToR now dst r = r) \<and>
      follows_table s dst (r_state (transitionToR now dst r)))"
proof (intro conjI impI allI)
  assume "c_state c = Some s" and "dst \<notin> set (TRANSITIONS s)"
  then show "transitionTo now dst c = Inr c"
    by (simp add: transitionTo_rejected rejected_def)
next
  fix c'
  assume "c_state c = Some s" and "transitionTo now dst c = Inr c'"
  then show "\<exists>s'. c_state c' = Some s' \<and> follows_table s dst s'"
    by (rule transitionTo_state [rotated])
next
  assume "d_state d = Some s" and "dst \<notin> set (TRANSITIONS s)"
  then show "transitionTo2 now dst d = d"
    by (simp add: transitionTo2_rejected rejected_def)
next
  assume "d_state d = Some s"
  then show "\<exists>s'. d_state (transitionTo2 now dst d) = Some s' \<and> follows_table s dst s'"
    by (rule transitionTo2_state)
next
  assume "r_state r = s" and "dst \<notin> set (TRANSITIONS s)"
  then show "transitionToR now dst r = r"
    by (simp add: transitionToR_rejected)
next
  assume "r_state r = s"
  then show "follows_table s dst (r_state (transitionToR now dst r))"
    using transitionToR_state [of r dst now] by simp
qed

theorem unlisted_transition_is_ignored_witness:
  "transitionTo 120 WAITING_FOR_LONG_PUSH (front_in IDLE) = Inr (front_in IDLE) \<and>
   transitionTo2 120 WAITING_FOR_LONG_PUSH (DATA2\<lparr>d_state := Some IDLE\<rparr>) = DATA2\<lparr>d_state := Some IDLE\<rparr> \<and>
   transitionToR 120 WAITING_FOR_LONG_PUSH DATAR = DATAR \<and>
   follows_table IDLE WAITING_FOR_LONG_PUSH (r_state (transitionToR 120 WAITING_FOR_LONG_PUSH DATAR))"
proof -
  have a: "c_state (front_in IDLE) = Some IDLE"
    by (simp add: front_in_def)
  have b: "d_state (DATA2\<lparr>d_state := Some IDLE\<rparr>) = Some IDLE"
    by simp
  have c: "r_state DATAR = IDLE"
    by (simp add: DATAR_def)
  show ?thesis
    using unlisted_transition_is_ignored [of "front_in IDLE" IDLE WAITING_FOR_LONG_PUSH 120
        "DATA2\<lparr>d_state := Some IDLE\<rparr>" DATAR] a b c
    by (simp add: follows_table_def)
qed

subsection \<open>A status fetch that completes after the reset\<close>

text \<open>
  C5. While the controller is in \<^verbatim>\<open>IDLE\<close>, the completion of a status fetch started by
  \<^verbatim>\<open>enterGetLightStatus\<close> never moves it to \<^verbatim>\<open>WAITING_FOR_LONG_PUSH\<close>: whatever the
  response, if the handler returns then the state is still \<^verbatim>\<open>IDLE\<close> and no timer
  was armed and no call issued, and for a successful response it does return (having
  recorded the status). The request for the transition itself leaves the controller as
  it was.
\<close>

theorem stale_status_fetch_keeps_idle:
  assumes "c_state c = Some IDLE"
    and "n < length (c_calls c)"
    and "snd (c_calls c ! n) = GetLightStatus OnLightStatus"
  shows "transitionTo now WAITING_FOR_LONG_PUSH c = Inr c \<and>
    (case httpDone n response error_code error_message now c of
       Inl x \<Rightarrow> True
     | Inr c' \<Rightarrow> c_state c' = Some IDLE \<and> c_timers c' = c_timers c
                 \<and> c_calls c' = remove_nth n (c_calls c)) \<and>
    (httpOk error_code response = Inr True \<and> parsed_body response = Inr b \<longrightarrow>
       (\<exists>c'. httpDone n response error_code error_message now c = Inr c'
             \<and> c_state c' = Some IDLE \<and> c_lightStatus c' = Some b))"
  using assms
  by (auto simp: httpDone_def getLightStatus_response_def failed_def print_def
      transitionTo_rejected rejected_def split: sum.splits option.splits)

theorem stale_status_fetch_keeps_idle_witness:
  "transitionTo 150 WAITING_FOR_LONG_PUSH idle_with_fetch = Inr idle_with_fetch \<and>
   (\<exists>c'. httpDone 0 (status_ok True 40) 0 [] 150 idle_with_fetch = Inr c'
         \<and> c_state c' = Some IDLE \<and> c_lightStatus c' = Some \<lparr>ison = True, brightness = 40\<rparr>)"
proof -
  have a: "c_state idle_with_fetch = Some IDLE"
    by (simp add: sample_defs)
  have b: "0 < length (c_calls idle_with_fetch)"
    by (simp add: sample_defs)
  have c: "snd (c_calls idle_with_fetch ! 0) = GetLightStatus OnLightStatus"
    by (simp add: sample_defs)
  have d: "httpOk 0 (status_ok True 40) = Inr True"
    by (simp add: httpOk_def callOk_def status_ok_def)
  have e: "parsed_body (status_ok True 40) = Inr \<lparr>ison = True, brightness = 40\<rparr>"
    by (simp add: parsed_body_def JSON_parse_def status_ok_def)
  show ?thesis
    using stale_status_fetch_keeps_idle [OF a b c, of 150 "status_ok True 40" 0 "[]"] d e
    by simp
qed

subsection \<open>The long-push timer\<close>

lemmas run_defs = handleInputEvent_def httpDone_def timerFired_def startsWith_def
  getLightStatus_response_def switchLight_response_def dimLight_response_def failed_def
  httpOk_def callOk_def parsed_body_def JSON_parse_def remove_nth_def rejected_def
  state_text_def request_url_def auth_prefix_def long_push_delay_def
  transitionTo.simps enterEnsureLightIsOn.simps Let_def

lemma long_push_scenario:
  "map_sum id c_timers
     (steps [(0, Input (press ''input:0'')), (120, HttpDone 0 (status_ok False 25) 0 [])] front)
   = Inr [(380, False, OnLongPushTimer)]"
  by (simp add: run_defs controller_defs sample_defs)

text \<open>
  C8. Entering \<^verbatim>\<open>WAITING_FOR_LONG_PUSH\<close> (from \<^verbatim>\<open>GET_LIGHT_STATUS\<close>, the only state
  whose row lists it) arms one more timer, one-shot, for
  \<open>max 1 (longPushTime - round (now - inputTriggerTime))\<close> milliseconds, in the
  multi-binding controller and in the script that ramps by itself. The delay is at
  least 1 for every threshold and every pair of times; for the threshold 500, a press
  at time 0 and a status fetch that completes at time 120 it is 380, and the run of
  exactly that press and that completion on the example binding leaves the one timer
  \<open>(380, one-shot)\<close> armed.
\<close>

theorem long_push_timer_delay:
  "(c_state c = Some GET_LIGHT_STATUS \<longrightarrow>
      (\<exists>c'. transitionTo now WAITING_FOR_LONG_PUSH c = Inr c' \<and>
            c_state c' = Some WAITING_FOR_LONG_PUSH \<and>
            c_timers c' = c_timers c @
              [(max 1 (LONG_PUSH_TIME - round (now - c_inputTriggerTime c)), False, OnLongPushTimer)])) \<and>
   (r_state r = GET_LIGHT_STATUS \<longrightarrow>
      r_state (transitionToR now WAITING_FOR_LONG_PUSH r) = WAITING_FOR_LONG_PUSH \<and>
      r_timers (transitionToR now WAITING_FOR_LONG_PUSH r) = r_timers r @
        [(r_nextHandle r, max 1 (CONFIG_longPushTime - round (now - r_inputTriggerTime r)), False,
          OnLongPushTimerR)]) \<and>
   c_timers (enterWaitingForLongPush now c) = c_timers c @
     [(long_push_delay LONG_PUSH_TIME now (c_inputTriggerTime c), False, OnLongPushTimer)] \<and>
   r_timers (enterWaitingForLongPushR now r) = r_timers r @
     [(r_nextHandle r, long_push_delay CONFIG_longPushTime now (r_inputTriggerTime r), False,
       OnLongPushTimerR)] \<and>
   long_push_delay T now t = max 1 (T - round (now - t)) \<and>
   1 \<le> long_push_delay T now t \<and>
   long_push_delay 500 120 0 = 380 \<and>
   map_sum id c_timers
     (steps [(0, Input (press ''input:0'')), (120, HttpDone 0 (status_ok False 25) 0 [])] front)
   = Inr [(380, False, OnLongPushTimer)]"
proof -
  have general: "(c_state c = Some GET_LIGHT_STATUS \<longrightarrow>
      (\<exists>c'. transitionTo now WAITING_FOR_LONG_PUSH c = Inr c' \<and>
            c_state c' = Some WAITING_FOR_LONG_PUSH \<and>
            c_timers c' = c_timers c @
              [(max 1 (LONG_PUSH_TIME - round (now - c_inputTriggerTime c)), False, OnLongPushTimer)])) \<and>
   (r_state r = GET_LIGHT_STATUS \<longrightarrow>
      r_state (transitionToR now WAITING_FOR_LONG_PUSH r) = WAITING_FOR_LONG_PUSH \<and>
      r_timers (transitionToR now WAITING_FOR_LONG_PUSH r) = r_timers r @
        [(r_nextHandle r, max 1 (CONFIG_longPushTime - round (now - r_inputTriggerTime r)), False,
          OnLongPushTimerR)])"
    by (simp add: transitionTo.simps transitionToR.simps rejected_def
        controller_defs dataR_defs long_push_delay_def Let_def)
  have entry: "c_timers (enterWaitingForLongPush now c) = c_timers c @
     [(long_push_delay LONG_PUSH_TIME now (c_inputTriggerTime c), False, OnLongPushTimer)] \<and>
   r_timers (enterWaitingForLongPushR now r) = r_timers r @
     [(r_nextHandle r, long_push_delay CONFIG_longPushTime now (r_inputTriggerTime r), False,
       OnLongPushTimerR)]"
    by (simp add: controller_defs dataR_defs)
  have delay: "long_push_delay T now t = max 1 (T - round (now - t)) \<and>
    1 \<le> long_push_delay T now t \<and> long_push_delay 500 120 0 = 380"
    by (simp add: long_push_delay_def)
  show ?thesis
    using general entry delay long_push_scenario by blast
qed

theorem long_push_timer_delay_witness:
  "(\<exists>c'. transitionTo 120 WAITING_FOR_LONG_PUSH (front_in GET_LIGHT_STATUS) = Inr c' \<and>
         c_state c' = Some WAITING_FOR_LONG_PUSH \<and>
         c_timers c' = [(380, False, OnLongPushTimer)]) \<and>
   r_timers (transitionToR 120 WAITING_FOR_LONG_PUSH (DATAR\<lparr>r_state := GET_LIGHT_STATUS\<rparr>))
     = [(0, 380, False, OnLongPushTimerR)]"
proof -
  have a: "c_state (front_in GET_LIGHT_STATUS) = Some GET_LIGHT_STATUS"
    by (simp add: front_in_def)
  have b: "c_timers (front_in GET_LIGHT_STATUS) = [] \<and> c_inputTriggerTime (front_in GET_LIGHT_STATUS) = 0"
    by (simp add: sample_defs)
  have c: "r_state (DATAR\<lparr>r_state := GET_LIGHT_STATUS\<rparr>) = GET_LIGHT_STATUS \<and>
           r_timers (DATAR\<lparr>r_state := GET_LIGHT_STATUS\<rparr>) = [] \<and>
           r_nextHandle (DATAR\<lparr>r_state := GET_LIGHT_STATUS\<rparr>) = 0 \<and>
           r_inputTriggerTime (DATAR\<lparr>r_state := GET_LIGHT_STATUS\<rparr>) = 0"
    by (simp add: DATAR_def)
  show ?thesis
    using long_push_timer_delay [of "front_in GET_LIGHT_STATUS" 120
        "DATAR\<lparr>r_state := GET_LIGHT_STATUS\<rparr>" 500 0] a b c
    by simp
qed

subsection \<open>A press while the device ramps\<close>

text \<open>
  C10. In the two scripts that let the device ramp, a press on a mapped channel while
  the state is \<^verbatim>\<open>DIMMING\<close> goes through \<^verbatim>\<open>IDLE\<close> into \<^verbatim>\<open>GET_LIGHT_STATUS\<close> (the
  two transitions are in the log), records the time and the direction of the new
  press, and adds exactly one call to those in flight: the status fetch
  \<^verbatim>\<open>light/0\<close>. No \<^verbatim>\<open>dim=stop\<close> is sent, and no timer is armed or disarmed.
\<close>

theorem press_while_dimming_sends_no_stop:
  "(c_state c = Some DIMMING \<and> c_inputMapping c inputIndex = Some action \<longrightarrow>
      (\<exists>c'. handleInputEvent now (press (INPUT_COMPONENT_PREFIX @ inputIndex)) c = Inr c' \<and>
            c_state c' = Some GET_LIGHT_STATUS \<and>
            c_calls c' = c_calls c @
              [(request_url ''light/0'' (c_deviceConfig c), GetLightStatus OnLightStatus)] \<and>
            c_timers c' = c_timers c \<and>
            c_inputTriggerTime c' = now \<and> c_dimmerAction c' = action \<and>
            c_log c' = c_log c @
              [[Str (''['' @ c_id c @ '']: ---> input event''),
                Str (INPUT_COMPONENT_PREFIX @ inputIndex), Bool True],
               [Str (''['' @ c_id c @ '']: transitioning from DIMMING to IDLE'')],
               [Str (''['' @ c_id c @ '']: transitioning from IDLE to GET_LIGHT_STATUS'')]])) \<and>
   (d_state d = Some DIMMING \<and> inputMapping CONFIG2 name = Some action2 \<longrightarrow>
      d_state (handleInputEvent2 now (press name) d) = Some GET_LIGHT_STATUS \<and>
      d_calls (handleInputEvent2 now (press name) d) = d_calls d @
        [(''http://192.168.3.127/light/0'', GetLightStatus2 ToWaitingForLongPush2)] \<and>
      d_timers (handleInputEvent2 now (press name) d) = d_timers d \<and>
      d_inputTriggerTime (handleInputEvent2 now (press name) d) = now \<and>
      d_inputAction (handleInputEvent2 now (press name) d) = action2 \<and>
      d_log (handleInputEvent2 now (press name) d) = d_log d @
        [[Str ''---> input event'', Str name, Bool True],
         [Str ''Transitioning from DIMMING to IDLE''],
         [Str ''Transitioning from IDLE to GET_LIGHT_STATUS'']])"
proof (intro conjI impI)
  assume a: "c_state c = Some DIMMING \<and> c_inputMapping c inputIndex = Some action"
  then show "\<exists>c'. handleInputEvent now (press (INPUT_COMPONENT_PREFIX @ inputIndex)) c = Inr c' \<and>
            c_state c' = Some GET_LIGHT_STATUS \<and>
            c_calls c' = c_calls c @
              [(request_url ''light/0'' (c_deviceConfig c), GetLightStatus OnLightStatus)] \<and>
            c_timers c' = c_timers c \<and>
            c_inputTriggerTime c' = now \<and> c_dimmerAction c' = action \<and>
            c_log c' = c_log c @
              [[Str (''['' @ c_id c @ '']: ---> input event''),
                Str (INPUT_COMPONENT_PREFIX @ inputIndex), Bool True],
               [Str (''['' @ c_id c @ '']: transitioning from DIMMING to IDLE'')],
               [Str (''['' @ c_id c @ '']: transitioning from IDLE to GET_LIGHT_STATUS'')]]"
    by (simp add: handleInputEvent_def press_def startsWith_def transitionTo.simps rejected_def
        state_text_def controller_defs Let_def)
next
  assume a: "d_state d = Some DIMMING \<and> inputMapping CONFIG2 name = Some action2"
  then have h: "handleInputEvent2 now (press name) d =
     transitionTo2 now GET_LIGHT_STATUS
       ((transitionTo2 now IDLE (print2 [Str ''---> input event'', Str name, Bool True] d))
          \<lparr>d_inputTriggerTime := now, d_inputAction := action2\<rparr>)"
    by (simp add: handleInputEvent2_def press_def print2_def Let_def)
  from a show "d_state (handleInputEvent2 now (press name) d) = Some GET_LIGHT_STATUS"
    unfolding h by (simp add: transitionTo2.simps rejected_def state_text_def data2_defs Let_def)
  from a show "d_calls (handleInputEvent2 now (press name) d) = d_calls d @
        [(''http://192.168.3.127/light/0'', GetLightStatus2 ToWaitingForLongPush2)]"
    unfolding h
    by (simp add: transitionTo2.simps rejected_def state_text_def data2_defs Let_def CONFIG2_def)
  from a show "d_timers (handleInputEvent2 now (press name) d) = d_timers d"
    unfolding h by (simp add: transitionTo2.simps rejected_def state_text_def data2_defs Let_def)
  from a show "d_inputTriggerTime (handleInputEvent2 now (press name) d) = now"
    unfolding h by (simp add: transitionTo2.simps rejected_def state_text_def data2_defs Let_def)
  from a show "d_inputAction (handleInputEvent2 now (press name) d) = action2"
    unfolding h by (simp add: transitionTo2.simps rejected_def state_text_def data2_defs Let_def)
  from a show "d_log (handleInputEvent2 now (press name) d) = d_log d @
        [[Str ''---> input event'', Str name, Bool True],
         [Str ''Transitioning from DIMMING to IDLE''],
         [Str ''Transitioning from IDLE to GET_LIGHT_STATUS'']]"
    unfolding h by (simp add: transitionTo2.simps rejected_def state_text_def data2_defs Let_def)
qed

theorem press_while_dimming_sends_no_stop_witness:
  "(\<exists>c'. handleInputEvent 900 (press ''input:1'') (front_in DIMMING) = Inr c' \<and>
         c_state c' = Some GET_LIGHT_STATUS \<and>
         c_calls c' = [(''http://192.168.3.127/light/0'', GetLightStatus OnLightStatus)] \<and>
         c_dimmerAction c' = DIMMER_ACTIONS_UP) \<and>
   d_calls (handleInputEvent2 900 (press ''input:1'') (DATA2\<lparr>d_state := Some DIMMING\<rparr>))
     = [(''http://192.168.3.127/light/0'', GetLightStatus2 ToWaitingForLongPush2)]"
proof -
  have a: "c_state (front_in DIMMING) = Some DIMMING \<and>
           c_inputMapping (front_in DIMMING) ''1'' = Some DIMMER_ACTIONS_UP"
    by (simp add: sample_defs)
  have b: "c_calls (front_in DIMMING) = [] \<and>
           request_url ''light/0'' (c_deviceConfig (front_in DIMMING)) = ''http://192.168.3.127/light/0''"
    by (simp add: sample_defs request_url_def auth_prefix_def)
  have c: "d_state (DATA2\<lparr>d_state := Some DIMMING\<rparr>) = Some DIMMING \<and>
           inputMapping CONFIG2 ''input:1'' = Some DIMMER_ACTIONS_UP \<and>
           d_calls (DATA2\<lparr>d_state := Some DIMMING\<rparr>) = []"
    by (simp add: DATA2_def CONFIG2_def)
  show ?thesis
    using press_while_dimming_sends_no_stop [of "front_in DIMMING" "''1''" DIMMER_ACTIONS_UP 900
        "DATA2\<lparr>d_state := Some DIMMING\<rparr>" "''input:1''" DIMMER_ACTIONS_UP] a b c
    by auto
qed

subsection \<open>Releases\<close>

lemmas runR_defs = statusHandlerR_def httpDoneR_def timerFiredR_def dimmingLoop_def
  getLightStatusR_response_def switchLightR_response_def setLightBrightnessR_response_def
  parsed_body_def JSON_parse_def remove_nth_def long_push_delay_def
  transitionToR.simps enterEnsureLightIsOnR.simps Let_def

lemma IDLE_allowed: "IDLE \<in> set (TRANSITIONS s)"
  by (cases s) simp_all

lemma not_rejected_IDLE: "\<not> rejected cur IDLE"
  by (simp add: rejected_def IDLE_allowed split: option.splits)

lemma transitionTo_IDLE:
  "\<exists>c'. transitionTo now IDLE c = Inr c' \<and> c_state c' = Some IDLE \<and> c_calls c' = c_calls c \<and>
        c_timers c' = c_timers c \<and> c_lightStatus c' = c_lightStatus c \<and>
        c_inputTriggerTime c' = 0 \<and> c_dimmerAction c' = DIMMER_ACTIONS_STOP"
  by (simp add: transitionTo.simps not_rejected_IDLE controller_defs Let_def)

lemma transitionTo2_IDLE:
  "d_state (transitionTo2 now IDLE d) = Some IDLE \<and> d_calls (transitionTo2 now IDLE d) = d_calls d \<and>
   d_timers (transitionTo2 now IDLE d) = d_timers d \<and>
   d_inputTriggerTime (transitionTo2 now IDLE d) = 0 \<and>
   d_inputAction (transitionTo2 now IDLE d) = DIMMER_ACTIONS_STOP"
  by (simp add: transitionTo2.simps not_rejected_IDLE data2_defs Let_def)

lemma httpOk_success:
  "error_code = 0 \<Longrightarrow> 200 \<le> code r \<Longrightarrow> code r < 300 \<Longrightarrow> httpOk error_code (Some r) = Inr True"
  by (simp add: httpOk_def callOk_def)

lemma httpOk_failure:
  "error_code \<noteq> 0 \<or> code r < 200 \<or> 300 \<le> code r \<Longrightarrow> httpOk error_code (Some r) = Inr False"
  by (auto simp: httpOk_def callOk_def)

text \<open>
  C2, as the claim states it, fails on the multi-binding controller: on the example
  binding, a long press (the light is on, so the ramp starts when the timer fires)
  followed by a release whose \<^verbatim>\<open>dim=stop\<close> request is answered with status 500 leaves
  the machine in \<^verbatim>\<open>DIMMING\<close>.
\<close>

theorem release_while_dimming_failed_stop_counterexample:
  "map_sum id c_state
     (steps [(0, Input (press ''input:1'')), (120, HttpDone 0 (status_ok True 40) 0 []),
             (500, TimerFired 0), (520, HttpDone 0 (status_ok True 40) 0 []),
             (900, Input (release ''input:1'')), (950, HttpDone 0 (status_error 500) 0 [])] front)
   = Inr (Some DIMMING)"
  by (simp add: run_defs controller_defs sample_defs)

text \<open>
  C2, amended. In the two scripts that let the device ramp, a release on a mapped
  channel while the state is \<^verbatim>\<open>DIMMING\<close> adds exactly one call, the \<^verbatim>\<open>dim=stop\<close>
  request, and leaves the state and the timers as they were. When that call completes,
  \<^verbatim>\<open>remote-dimmer2.js\<close> enters \<^verbatim>\<open>IDLE\<close> whatever the response; the multi-binding
  controller enters \<^verbatim>\<open>IDLE\<close> when the call succeeded with a status from 200 to 299,
  and when the call failed or the status is another one it prints the failure and
  changes nothing else.
\<close>

theorem release_while_dimming_stops_once:
  "(c_state c = Some DIMMING \<and> c_inputMapping c inputIndex = Some action \<longrightarrow>
      (\<exists>c'. handleInputEvent now (release (INPUT_COMPONENT_PREFIX @ inputIndex)) c = Inr c' \<and>
            c_calls c' = c_calls c @
              [(request_url ''light/0?dim=stop'' (c_deviceConfig c),
                DimLight DIMMER_ACTIONS_STOP OnDimStopped)] \<and>
            c_state c' = Some DIMMING \<and> c_timers c' = c_timers c)) \<and>
   (n < length (c_calls c) \<and> snd (c_calls c ! n) = DimLight DIMMER_ACTIONS_STOP OnDimStopped \<longrightarrow>
      (error_code = 0 \<and> 200 \<le> code r \<and> code r < 300 \<longrightarrow>
         (\<exists>c'. httpDone n (Some r) error_code error_message now c = Inr c' \<and>
               c_state c' = Some IDLE \<and> c_calls c' = remove_nth n (c_calls c) \<and>
               c_timers c' = c_timers c)) \<and>
      (error_code \<noteq> 0 \<or> code r < 200 \<or> 300 \<le> code r \<longrightarrow>
         httpDone n (Some r) error_code error_message now c =
           Inr (print [Str ''Failed to dim light'', Str error_message, Str (message r)]
                  (c\<lparr>c_calls := remove_nth n (c_calls c)\<rparr>)))) \<and>
   (d_state d = Some DIMMING \<and> inputMapping CONFIG2 name = Some action2 \<longrightarrow>
      d_calls (handleInputEvent2 now (release name) d) = d_calls d @
        [(''http://192.168.3.127/light/0?dim=stop'', DimLight2 DIMMER_ACTIONS_STOP ToIdle2)] \<and>
      d_state (handleInputEvent2 now (release name) d) = Some DIMMING \<and>
      d_timers (handleInputEvent2 now (release name) d) = d_timers d) \<and>
   (k < length (d_calls d) \<and> snd (d_calls d ! k) = DimLight2 DIMMER_ACTIONS_STOP ToIdle2 \<longrightarrow>
      (\<exists>d'. httpDone2 k response error_code error_message now d = Inr d' \<and>
            d_state d' = Some IDLE \<and> d_calls d' = remove_nth k (d_calls d) \<and>
            d_timers d' = d_timers d))"
proof (intro conjI impI)
  assume "c_state c = Some DIMMING \<and> c_inputMapping c inputIndex = Some action"
  then show "\<exists>c'. handleInputEvent now (release (INPUT_COMPONENT_PREFIX @ inputIndex)) c = Inr c' \<and>
            c_calls c' = c_calls c @
              [(request_url ''light/0?dim=stop'' (c_deviceConfig c),
                DimLight DIMMER_ACTIONS_STOP OnDimStopped)] \<and>
            c_state c' = Some DIMMING \<and> c_timers c' = c_timers c"
    by (simp add: handleInputEvent_def release_def startsWith_def controller_defs Let_def)
next
  assume a: "n < length (c_calls c) \<and> snd (c_calls c ! n) = DimLight DIMMER_ACTIONS_STOP OnDimStopped"
    and ok: "error_code = 0 \<and> 200 \<le> code r \<and> code r < 300"
  from ok have "httpOk error_code (Some r) = Inr True"
    by (simp add: httpOk_success)
  then show "\<exists>c'. httpDone n (Some r) error_code error_message now c = Inr c' \<and>
               c_state c' = Some IDLE \<and> c_calls c' = remove_nth n (c_calls c) \<and>
               c_timers c' = c_timers c"
    using a
      transitionTo_IDLE [of now "print [Str ''dimLight'', Str DIMMER_ACTIONS_STOP]
                                   (c\<lparr>c_calls := remove_nth n (c_calls c)\<rparr>)"]
    by (auto simp: httpDone_def dimLight_response_def print_def)
next
  assume a: "n < length (c_calls c) \<and> snd (c_calls c ! n) = DimLight DIMMER_ACTIONS_STOP OnDimStopped"
    and bad: "error_code \<noteq> 0 \<or> code r < 200 \<or> 300 \<le> code r"
  from bad have "httpOk error_code (Some r) = Inr False"
    by (rule httpOk_failure)
  with a show "httpDone n (Some r) error_code error_message now c =
           Inr (print [Str ''Failed to dim light'', Str error_message, Str (message r)]
                  (c\<lparr>c_calls := remove_nth n (c_calls c)\<rparr>))"
    by (simp add: httpDone_def dimLight_response_def failed_def)
next
  assume a: "d_state d = Some DIMMING \<and> inputMapping CONFIG2 name = Some action2"
  then have h: "handleInputEvent2 now (release name) d =
      dimLight2 DIMMER_ACTIONS_STOP ToIdle2 (print2 [Str ''---> input event'', Str name, Bool False] d)"
    by (simp add: handleInputEvent2_def release_def print2_def Let_def)
  show "d_calls (handleInputEvent2 now (release name) d) = d_calls d @
        [(''http://192.168.3.127/light/0?dim=stop'', DimLight2 DIMMER_ACTIONS_STOP ToIdle2)]"
    unfolding h by (simp add: data2_defs CONFIG2_def)
  from a show "d_state (handleInputEvent2 now (release name) d) = Some DIMMING"
    unfolding h by (simp add: data2_defs)
  show "d_timers (handleInputEvent2 now (release name) d) = d_timers d"
    unfolding h by (simp add: data2_defs)
next
  assume a: "k < length (d_calls d) \<and> snd (d_calls d ! k) = DimLight2 DIMMER_ACTIONS_STOP ToIdle2"
  then show "\<exists>d'. httpDone2 k response error_code error_message now d = Inr d' \<and>
            d_state d' = Some IDLE \<and> d_calls d' = remove_nth k (d_calls d) \<and>
            d_timers d' = d_timers d"
    by (simp add: httpDone2_def dimLight2_response_def transitionTo2_IDLE print2_def)
qed

theorem release_while_dimming_stops_once_witness:
  "(\<exists>c'. handleInputEvent 900 (release ''input:1'') (front_in DIMMING) = Inr c' \<and>
         c_calls c' = [(''http://192.168.3.127/light/0?dim=stop'', DimLight DIMMER_ACTIONS_STOP OnDimStopped)] \<and>
         c_state c' = Some DIMMING) \<and>
   (\<exists>c'. httpDone 0 (Some \<lparr>code = 200, message = ''OK'', body = Malformed\<rparr>) 0 [] 950 stop_in_flight = Inr c' \<and>
         c_state c' = Some IDLE \<and> c_calls c' = []) \<and>
   map_sum id c_state
     (httpDone 0 (Some \<lparr>code = 500, message = ''error'', body = Malformed\<rparr>) 0 [] 950 stop_in_flight)
     = Inr (Some DIMMING) \<and>
   d_calls (handleInputEvent2 900 (release ''input:1'') (DATA2\<lparr>d_state := Some DIMMING\<rparr>))
     = [(''http://192.168.3.127/light/0?dim=stop'', DimLight2 DIMMER_ACTIONS_STOP ToIdle2)] \<and>
   (\<exists>d'. httpDone2 0 None (- 1) ''timeout'' 950 stop_in_flight2 = Inr d' \<and> d_state d' = Some IDLE)"
proof -
  have a: "c_state (front_in DIMMING) = Some DIMMING \<and>
           c_inputMapping (front_in DIMMING) ''1'' = Some DIMMER_ACTIONS_UP \<and>
           c_calls (front_in DIMMING) = [] \<and>
           request_url ''light/0?dim=stop'' (c_deviceConfig (front_in DIMMING))
             = ''http://192.168.3.127/light/0?dim=stop''"
    by (simp add: sample_defs request_url_def auth_prefix_def)
  have b: "0 < length (c_calls stop_in_flight) \<and>
           snd (c_calls stop_in_flight ! 0) = DimLight DIMMER_ACTIONS_STOP OnDimStopped \<and>
           remove_nth 0 (c_calls stop_in_flight) = [] \<and>
           c_state stop_in_flight = Some DIMMING"
    by (simp add: sample_defs remove_nth_def)
  have c: "d_state (DATA2\<lparr>d_state := Some DIMMING\<rparr>) = Some DIMMING \<and>
           inputMapping CONFIG2 ''input:1'' = Some DIMMER_ACTIONS_UP \<and>
           d_calls (DATA2\<lparr>d_state := Some DIMMING\<rparr>) = []"
    by (simp add: DATA2_def CONFIG2_def)
  have d: "0 < length (d_calls stop_in_flight2) \<and>
           snd (d_calls stop_in_flight2 ! 0) = DimLight2 DIMMER_ACTIONS_STOP ToIdle2"
    by (simp add: sample_defs)
  note t1 = release_while_dimming_stops_once [where c = "front_in DIMMING" and inputIndex = "''1''"
      and action = DIMMER_ACTIONS_UP and now = 900 and n = 0 and error_code = 0
      and r = "\<lparr>code = 200, message = ''OK'', body = Malformed\<rparr>"
      and error_message = "[]" and d = "DATA2\<lparr>d_state := Some DIMMING\<rparr>" and name = "''input:1''"
      and ?action2.0 = DIMMER_ACTIONS_UP and k = 0 and response = None]
  note t2 = release_while_dimming_stops_once [where c = stop_in_flight and inputIndex = "''1''"
      and action = DIMMER_ACTIONS_UP and now = 950 and n = 0 and error_code = 0
      and r = "\<lparr>code = 200, message = ''OK'', body = Malformed\<rparr>"
      and error_message = "[]" and d = stop_in_flight2 and name = "''input:1''"
      and ?action2.0 = DIMMER_ACTIONS_UP and k = 0 and response = None]
  note t3 = release_while_dimming_stops_once [where c = stop_in_flight and inputIndex = "''1''"
      and action = DIMMER_ACTIONS_UP and now = 950 and n = 0 and error_code = 0
      and r = "\<lparr>code = 500, message = ''error'', body = Malformed\<rparr>"
      and error_message = "[]" and d = stop_in_flight2 and name = "''input:1''"
      and ?action2.0 = DIMMER_ACTIONS_UP and k = 0 and response = None]
  note t4 = release_while_dimming_stops_once [where c = stop_in_flight and inputIndex = "''1''"
      and action = DIMMER_ACTIONS_UP and now = 950 and n = 0 and error_code = "- 1"
      and r = "\<lparr>code = 500, message = ''error'', body = Malformed\<rparr>"
      and error_message = "''timeout''" and d = stop_in_flight2 and name = "''input:1''"
      and ?action2.0 = DIMMER_ACTIONS_UP and k = 0 and response = None]
  have w1: "\<exists>c'. handleInputEvent 900 (release ''input:1'') (front_in DIMMING) = Inr c' \<and>
         c_calls c' = [(''http://192.168.3.127/light/0?dim=stop'', DimLight DIMMER_ACTIONS_STOP OnDimStopped)] \<and>
         c_state c' = Some DIMMING"
    using t1 a by auto
  have w2: "\<exists>c'. httpDone 0 (Some \<lparr>code = 200, message = ''OK'', body = Malformed\<rparr>) 0 [] 950 stop_in_flight = Inr c' \<and>
         c_state c' = Some IDLE \<and> c_calls c' = []"
    using t2 b by auto
  have w3: "map_sum id c_state
     (httpDone 0 (Some \<lparr>code = 500, message = ''error'', body = Malformed\<rparr>) 0 [] 950 stop_in_flight)
     = Inr (Some DIMMING)"
    using t3 b by (simp add: print_def)
  have w4: "d_calls (handleInputEvent2 900 (release ''input:1'') (DATA2\<lparr>d_state := Some DIMMING\<rparr>))
     = [(''http://192.168.3.127/light/0?dim=stop'', DimLight2 DIMMER_ACTIONS_STOP ToIdle2)]"
    using t1 c by simp
  have w5: "\<exists>d'. httpDone2 0 None (- 1) ''timeout'' 950 stop_in_flight2 = Inr d' \<and> d_state d' = Some IDLE"
    using t4 d by auto
  show ?thesis
    using w1 w2 w3 w4 w5 by blast
qed

lemma transitionToR_IDLE:
  "r_state (transitionToR now IDLE d) = IDLE \<and> r_calls (transitionToR now IDLE d) = r_calls d \<and>
   r_inputTriggerTime (transitionToR now IDLE d) = 0 \<and>
   r_dimmerAction (transitionToR now IDLE d) = DIMMER_ACTIONS_STOP"
  by (simp add: transitionToR.simps IDLE_allowed dataR_defs Let_def split: option.splits)

text \<open>
  C3, as the claim states it, fails on the multi-binding controller: on the example
  binding, a press, the status fetch answered, a release within the threshold, and
  the \<^verbatim>\<open>turn=toggle\<close> request answered with status 500 leave the machine in
  \<^verbatim>\<open>WAITING_FOR_LONG_PUSH\<close>, not in \<^verbatim>\<open>IDLE\<close>.
\<close>

theorem short_press_failed_toggle_counterexample:
  "map_sum id c_state
     (steps [(0, Input (press ''input:1'')), (120, HttpDone 0 (status_ok True 40) 0 []),
             (200, Input (release ''input:1'')), (250, HttpDone 0 (status_error 500) 0 [])] front)
   = Inr (Some WAITING_FOR_LONG_PUSH)"
  by (simp add: run_defs controller_defs sample_defs)

text \<open>
  C3, amended. In the multi-binding controller a release on a mapped channel while the
  state is \<^verbatim>\<open>GET_LIGHT_STATUS\<close> or \<^verbatim>\<open>WAITING_FOR_LONG_PUSH\<close> adds exactly one call,
  the \<^verbatim>\<open>turn=toggle\<close> request, and leaves the state and the timers as they were. When
  that call completes with a status from 200 to 299 and a body that parses, the body is
  recorded and the machine enters \<^verbatim>\<open>IDLE\<close>; when the call failed or the status is
  another one, the failure is printed and nothing else changes. In the script that ramps
  by itself a release on one of its two channels while the state is
  \<^verbatim>\<open>WAITING_FOR_LONG_PUSH\<close> enters \<^verbatim>\<open>IDLE\<close> at once and adds exactly one call, the
  toggle.
\<close>

theorem short_press_release_toggles_once:
  "((c_state c = Some WAITING_FOR_LONG_PUSH \<or> c_state c = Some GET_LIGHT_STATUS) \<and>
    c_inputMapping c inputIndex = Some action \<longrightarrow>
      (\<exists>c'. handleInputEvent now (release (INPUT_COMPONENT_PREFIX @ inputIndex)) c = Inr c' \<and>
            c_calls c' = c_calls c @
              [(request_url ''light/0?turn=toggle'' (c_deviceConfig c),
                SwitchLight LIGHT_ACTIONS_TOGGLE OnToggled)] \<and>
            c_state c' = c_state c \<and> c_timers c' = c_timers c)) \<and>
   (n < length (c_calls c) \<and> snd (c_calls c ! n) = SwitchLight LIGHT_ACTIONS_TOGGLE OnToggled \<longrightarrow>
      (error_code = 0 \<and> 200 \<le> code r \<and> code r < 300 \<and> body r = Json b \<longrightarrow>
         (\<exists>c'. httpDone n (Some r) error_code error_message now c = Inr c' \<and>
               c_state c' = Some IDLE \<and> c_lightStatus c' = Some b \<and>
               c_calls c' = remove_nth n (c_calls c) \<and> c_timers c' = c_timers c)) \<and>
      (error_code \<noteq> 0 \<or> code r < 200 \<or> 300 \<le> code r \<longrightarrow>
         httpDone n (Some r) error_code error_message now c =
           Inr (print [Str ''Failed to switch light'', Str error_message, Str (message r)]
                  (c\<lparr>c_calls := remove_nth n (c_calls c)\<rparr>)))) \<and>
   (r_state d = WAITING_FOR_LONG_PUSH \<and> (name = ''input:0'' \<or> name = ''input:1'') \<longrightarrow>
      r_state (statusHandlerR now (release name) d) = IDLE \<and>
      r_calls (statusHandlerR now (release name) d) = r_calls d @
        [(''http://192.168.3.127/light/0/set?turn=toggle'', SwitchLightR ''toggle'' NopR)])"
proof (intro conjI impI)
  assume "(c_state c = Some WAITING_FOR_LONG_PUSH \<or> c_state c = Some GET_LIGHT_STATUS) \<and>
    c_inputMapping c inputIndex = Some action"
  then show "\<exists>c'. handleInputEvent now (release (INPUT_COMPONENT_PREFIX @ inputIndex)) c = Inr c' \<and>
            c_calls c' = c_calls c @
              [(request_url ''light/0?turn=toggle'' (c_deviceConfig c),
                SwitchLight LIGHT_ACTIONS_TOGGLE OnToggled)] \<and>
            c_state c' = c_state c \<and> c_timers c' = c_timers c"
    by (auto simp: handleInputEvent_def release_def startsWith_def controller_defs Let_def)
next
  assume a: "n < length (c_calls c) \<and> snd (c_calls c ! n) = SwitchLight LIGHT_ACTIONS_TOGGLE OnToggled"
    and ok: "error_code = 0 \<and> 200 \<le> code r \<and> code r < 300 \<and> body r = Json b"
  from ok have h: "httpOk error_code (Some r) = Inr True" and p: "parsed_body (Some r) = Inr b"
    by (simp_all add: httpOk_success parsed_body_def JSON_parse_def)
  show "\<exists>c'. httpDone n (Some r) error_code error_message now c = Inr c' \<and>
               c_state c' = Some IDLE \<and> c_lightStatus c' = Some b \<and>
               c_calls c' = remove_nth n (c_calls c) \<and> c_timers c' = c_timers c"
    using a h p
      transitionTo_IDLE [of now "(print [Str ''switchLight'', Str LIGHT_ACTIONS_TOGGLE, Bool (ison b),
                                          Num (brightness b)]
                                   (c\<lparr>c_calls := remove_nth n (c_calls c)\<rparr>))\<lparr>c_lightStatus := Some b\<rparr>"]
    by (auto simp: httpDone_def switchLight_response_def print_def)
next
  assume a: "n < length (c_calls c) \<and> snd (c_calls c ! n) = SwitchLight LIGHT_ACTIONS_TOGGLE OnToggled"
    and bad: "error_code \<noteq> 0 \<or> code r < 200 \<or> 300 \<le> code r"
  from bad have "httpOk error_code (Some r) = Inr False"
    by (rule httpOk_failure)
  with a show "httpDone n (Some r) error_code error_message now c =
           Inr (print [Str ''Failed to switch light'', Str error_message, Str (message r)]
                  (c\<lparr>c_calls := remove_nth n (c_calls c)\<rparr>))"
    by (simp add: httpDone_def switchLight_response_def failed_def)
next
  assume a: "r_state d = WAITING_FOR_LONG_PUSH \<and> (name = ''input:0'' \<or> name = ''input:1'')"
  then have h: "statusHandlerR now (release name) d = switchLightR ''toggle'' NopR (transitionToR now IDLE d)"
    by (auto simp: statusHandlerR_def release_def)
  show "r_state (statusHandlerR now (release name) d) = IDLE"
    unfolding h using transitionToR_IDLE [of now d] by (simp add: switchLightR_def sendRequestR_def)
  show "r_calls (statusHandlerR now (release name) d) = r_calls d @
        [(''http://192.168.3.127/light/0/set?turn=toggle'', SwitchLightR ''toggle'' NopR)]"
    unfolding h using transitionToR_IDLE [of now d] by (simp add: switchLightR_def sendRequestR_def)
qed

theorem short_press_release_toggles_once_witness:
  "(\<exists>c'. handleInputEvent 200 (release ''input:1'') (front_in WAITING_FOR_LONG_PUSH) = Inr c' \<and>
         c_calls c' = [(''http://192.168.3.127/light/0?turn=toggle'',
                        SwitchLight LIGHT_ACTIONS_TOGGLE OnToggled)] \<and>
         c_state c' = Some WAITING_FOR_LONG_PUSH) \<and>
   (\<exists>c'. httpDone 0 (status_ok False 40) 0 [] 250 toggle_in_flight = Inr c' \<and>
         c_state c' = Some IDLE \<and> c_lightStatus c' = Some \<lparr>ison = False, brightness = 40\<rparr>) \<and>
   map_sum id c_state (httpDone 0 (status_error 500) 0 [] 250 toggle_in_flight)
     = Inr (Some WAITING_FOR_LONG_PUSH) \<and>
   r_state (statusHandlerR 200 (release ''input:1'') (DATAR\<lparr>r_state := WAITING_FOR_LONG_PUSH\<rparr>)) = IDLE \<and>
   r_calls (statusHandlerR 200 (release ''input:1'') (DATAR\<lparr>r_state := WAITING_FOR_LONG_PUSH\<rparr>))
     = [(''http://192.168.3.127/light/0/set?turn=toggle'', SwitchLightR ''toggle'' NopR)]"
proof -
  have a: "c_state (front_in WAITING_FOR_LONG_PUSH) = Some WAITING_FOR_LONG_PUSH \<and>
           c_inputMapping (front_in WAITING_FOR_LONG_PUSH) ''1'' = Some DIMMER_ACTIONS_UP \<and>
           c_calls (front_in WAITING_FOR_LONG_PUSH) = [] \<and>
           request_url ''light/0?turn=toggle'' (c_deviceConfig (front_in WAITING_FOR_LONG_PUSH))
             = ''http://192.168.3.127/light/0?turn=toggle''"
    by (simp add: sample_defs request_url_def auth_prefix_def)
  have b: "0 < length (c_calls toggle_in_flight) \<and>
           snd (c_calls toggle_in_flight ! 0) = SwitchLight LIGHT_ACTIONS_TOGGLE OnToggled \<and>
           remove_nth 0 (c_calls toggle_in_flight) = [] \<and>
           c_state toggle_in_flight = Some WAITING_FOR_LONG_PUSH"
    by (simp add: sample_defs remove_nth_def)
  have c: "r_state (DATAR\<lparr>r_state := WAITING_FOR_LONG_PUSH\<rparr>) = WAITING_FOR_LONG_PUSH \<and>
           r_calls (DATAR\<lparr>r_state := WAITING_FOR_LONG_PUSH\<rparr>) = []"
    by (simp add: DATAR_def)
  note t1 = short_press_release_toggles_once [where c = "front_in WAITING_FOR_LONG_PUSH"
      and inputIndex = "''1''" and action = DIMMER_ACTIONS_UP and now = 200 and n = 0
      and error_code = 0 and r = "\<lparr>code = 200, message = ''OK'', body = Json \<lparr>ison = False, brightness = 40\<rparr>\<rparr>"
      and b = "\<lparr>ison = False, brightness = 40\<rparr>" and error_message = "[]"
      and d = "DATAR\<lparr>r_state := WAITING_FOR_LONG_PUSH\<rparr>" and name = "''input:1''"]
  note t2 = short_press_release_toggles_once [where c = toggle_in_flight
      and inputIndex = "''1''" and action = DIMMER_ACTIONS_UP and now = 250 and n = 0
      and error_code = 0 and r = "\<lparr>code = 200, message = ''OK'', body = Json \<lparr>ison = False, brightness = 40\<rparr>\<rparr>"
      and b = "\<lparr>ison = False, brightness = 40\<rparr>" and error_message = "[]"
      and d = "DATAR\<lparr>r_state := WAITING_FOR_LONG_PUSH\<rparr>" and name = "''input:1''"]
  note t3 = short_press_release_toggles_once [where c = toggle_in_flight
      and inputIndex = "''1''" and action = DIMMER_ACTIONS_UP and now = 250 and n = 0
      and error_code = 0 and r = "\<lparr>code = 500, message = ''error'', body = Malformed\<rparr>"
      and b = "\<lparr>ison = False, brightness = 40\<rparr>" and error_message = "[]"
      and d = "DATAR\<lparr>r_state := WAITING_FOR_LONG_PUSH\<rparr>" and name = "''input:1''"]
  have w1: "\<exists>c'. handleInputEvent 200 (release ''input:1'') (front_in WAITING_FOR_LONG_PUSH) = Inr c' \<and>
         c_calls c' = [(''http://192.168.3.127/light/0?turn=toggle'',
                        SwitchLight LIGHT_ACTIONS_TOGGLE OnToggled)] \<and>
         c_state c' = Some WAITING_FOR_LONG_PUSH"
    using t1 a by auto
  have w2: "\<exists>c'. httpDone 0 (status_ok False 40) 0 [] 250 toggle_in_flight = Inr c' \<and>
         c_state c' = Some IDLE \<and> c_lightStatus c' = Some \<lparr>ison = False, brightness = 40\<rparr>"
    using t2 b by (auto simp: status_ok_def)
  have w3: "map_sum id c_state (httpDone 0 (status_error 500) 0 [] 250 toggle_in_flight)
     = Inr (Some WAITING_FOR_LONG_PUSH)"
    using t3 b by (simp add: print_def status_error_def)
  have w4: "r_state (statusHandlerR 200 (release ''input:1'') (DATAR\<lparr>r_state := WAITING_FOR_LONG_PUSH\<rparr>)) = IDLE \<and>
   r_calls (statusHandlerR 200 (release ''input:1'') (DATAR\<lparr>r_state := WAITING_FOR_LONG_PUSH\<rparr>))
     = [(''http://192.168.3.127/light/0/set?turn=toggle'', SwitchLightR ''toggle'' NopR)]"
    using t1 c by simp
  show ?thesis
    using w1 w2 w3 w4 by blast
qed

subsection \<open>The outcome of a status fetch\<close>

text \<open>
  C6, as the claim states it, fails on a malformed body: on the example binding, a press
  and a status fetch answered with status 200 and a body that is not JSON end in the
  exception of \<^verbatim>\<open>JSON.parse\<close>; nothing is printed and no handler catches it.
\<close>

theorem malformed_status_body_counterexample:
  "steps [(0, Input (press ''input:0'')),
          (120, HttpDone 0 (Some \<lparr>code = 200, message = ''OK'', body = Malformed\<rparr>) 0 [])] front
   = Inl SyntaxError"
  by (simp add: run_defs controller_defs sample_defs)

text \<open>
  C6, amended. In the multi-binding controller, when the status fetch of
  \<^verbatim>\<open>enterGetLightStatus\<close> completes with error code 0, a status from 200 to 299 and a
  body that parses, the body is recorded as the light status and, the state still being
  \<^verbatim>\<open>GET_LIGHT_STATUS\<close>, the machine enters \<^verbatim>\<open>WAITING_FOR_LONG_PUSH\<close> and arms the
  long-push timer. When it completes with another error code or another status (and a
  response object to read the message from), the failure is printed and nothing else
  changes: the state, the recorded status and the timers are the same and no call is
  issued. In \<^verbatim>\<open>remote-dimmer2.js\<close> nothing is checked: whatever the error code and the
  status, a body that parses is recorded and the machine goes on.
\<close>

theorem status_fetch_outcomes:
  "(n < length (c_calls c) \<and> snd (c_calls c ! n) = GetLightStatus OnLightStatus \<longrightarrow>
      (error_code = 0 \<and> 200 \<le> code r \<and> code r < 300 \<and> body r = Json b \<and>
       c_state c = Some GET_LIGHT_STATUS \<longrightarrow>
         (\<exists>c'. httpDone n (Some r) error_code error_message now c = Inr c' \<and>
               c_lightStatus c' = Some b \<and> c_state c' = Some WAITING_FOR_LONG_PUSH \<and>
               c_timers c' = c_timers c @
                 [(long_push_delay LONG_PUSH_TIME now (c_inputTriggerTime c), False, OnLongPushTimer)] \<and>
               c_calls c' = remove_nth n (c_calls c))) \<and>
      (error_code \<noteq> 0 \<or> code r < 200 \<or> 300 \<le> code r \<longrightarrow>
         httpDone n (Some r) error_code error_message now c =
           Inr (print [Str ''Failed to get light status'', Str error_message, Str (message r)]
                  (c\<lparr>c_calls := remove_nth n (c_calls c)\<rparr>)))) \<and>
   (k < length (d_calls d) \<and> snd (d_calls d ! k) = GetLightStatus2 ToWaitingForLongPush2 \<and>
    body r = Json b \<and> d_state d = Some GET_LIGHT_STATUS \<longrightarrow>
      (\<exists>d'. httpDone2 k (Some r) error_code error_message now d = Inr d' \<and>
            d_lightIsOn d' = ison b \<and> d_state d' = Some WAITING_FOR_LONG_PUSH \<and>
            d_timers d' = d_timers d @
              [(long_push_delay (longPushTime CONFIG2) now (d_inputTriggerTime d), False, OnLongPushTimer)] \<and>
            d_calls d' = remove_nth k (d_calls d)))"
proof (intro conjI impI)
  assume a: "n < length (c_calls c) \<and> snd (c_calls c ! n) = GetLightStatus OnLightStatus"
    and ok: "error_code = 0 \<and> 200 \<le> code r \<and> code r < 300 \<and> body r = Json b \<and>
       c_state c = Some GET_LIGHT_STATUS"
  from ok have h: "httpOk error_code (Some r) = Inr True" and p: "parsed_body (Some r) = Inr b"
    by (simp_all add: httpOk_success parsed_body_def JSON_parse_def)
  show "\<exists>c'. httpDone n (Some r) error_code error_message now c = Inr c' \<and>
               c_lightStatus c' = Some b \<and> c_state c' = Some WAITING_FOR_LONG_PUSH \<and>
               c_timers c' = c_timers c @
                 [(long_push_delay LONG_PUSH_TIME now (c_inputTriggerTime c), False, OnLongPushTimer)] \<and>
               c_calls c' = remove_nth n (c_calls c)"
    using a h p ok
    by (simp add: httpDone_def getLightStatus_response_def transitionTo.simps rejected_def
        controller_defs Let_def)
next
  assume a: "n < length (c_calls c) \<and> snd (c_calls c ! n) = GetLightStatus OnLightStatus"
    and bad: "error_code \<noteq> 0 \<or> code r < 200 \<or> 300 \<le> code r"
  from bad have "httpOk error_code (Some r) = Inr False"
    by (rule httpOk_failure)
  with a show "httpDone n (Some r) error_code error_message now c =
           Inr (print [Str ''Failed to get light status'', Str error_message, Str (message r)]
                  (c\<lparr>c_calls := remove_nth n (c_calls c)\<rparr>))"
    by (simp add: httpDone_def getLightStatus_response_def failed_def)
next
  assume a: "k < length (d_calls d) \<and> snd (d_calls d ! k) = GetLightStatus2 ToWaitingForLongPush2 \<and>
    body r = Json b \<and> d_state d = Some GET_LIGHT_STATUS"
  then have p: "parsed_body (Some r) = Inr b"
    by (simp add: parsed_body_def JSON_parse_def)
  show "\<exists>d'. httpDone2 k (Some r) error_code error_message now d = Inr d' \<and>
            d_lightIsOn d' = ison b \<and> d_state d' = Some WAITING_FOR_LONG_PUSH \<and>
            d_timers d' = d_timers d @
              [(long_push_delay (longPushTime CONFIG2) now (d_inputTriggerTime d), False, OnLongPushTimer)] \<and>
            d_calls d' = remove_nth k (d_calls d)"
    using a p
    by (simp add: httpDone2_def getLightStatus2_response_def transitionTo2.simps rejected_def
        data2_defs Let_def)
qed

theorem status_fetch_outcomes_witness:
  "(\<exists>c'. httpDone 0 (status_ok False 25) 0 [] 120 fetch_in_flight = Inr c' \<and>
         c_lightStatus c' = Some \<lparr>ison = False, brightness = 25\<rparr> \<and>
         c_state c' = Some WAITING_FOR_LONG_PUSH \<and>
         c_timers c' = [(380, False, OnLongPushTimer)] \<and> c_calls c' = []) \<and>
   httpDone 0 (status_error 503) 0 ''unavailable'' 120 fetch_in_flight =
     Inr (print [Str ''Failed to get light status'', Str ''unavailable'', Str ''error'']
            (fetch_in_flight\<lparr>c_calls := []\<rparr>)) \<and>
   (\<exists>d'. httpDone2 0 (Some \<lparr>code = 503, message = ''error'',
                              body = Json \<lparr>ison = True, brightness = 25\<rparr>\<rparr>) (- 1) ''unavailable''
            120 fetch_in_flight2 = Inr d' \<and>
         d_lightIsOn d' = True \<and> d_state d' = Some WAITING_FOR_LONG_PUSH)"
proof -
  have a: "0 < length (c_calls fetch_in_flight) \<and>
           snd (c_calls fetch_in_flight ! 0) = GetLightStatus OnLightStatus \<and>
           remove_nth 0 (c_calls fetch_in_flight) = [] \<and>
           c_state fetch_in_flight = Some GET_LIGHT_STATUS \<and>
           c_timers fetch_in_flight = [] \<and> c_inputTriggerTime fetch_in_flight = 0"
    by (simp add: sample_defs remove_nth_def)
  have b: "0 < length (d_calls fetch_in_flight2) \<and>
           snd (d_calls fetch_in_flight2 ! 0) = GetLightStatus2 ToWaitingForLongPush2 \<and>
           d_state fetch_in_flight2 = Some GET_LIGHT_STATUS"
    by (simp add: sample_defs)
  note t1 = status_fetch_outcomes [where c = fetch_in_flight and n = 0 and error_code = 0
      and r = "\<lparr>code = 200, message = ''OK'', body = Json \<lparr>ison = False, brightness = 25\<rparr>\<rparr>"
      and b = "\<lparr>ison = False, brightness = 25\<rparr>" and error_message = "[]" and now = 120
      and d = fetch_in_flight2 and k = 0]
  note t2 = status_fetch_outcomes [where c = fetch_in_flight and n = 0 and error_code = 0
      and r = "\<lparr>code = 503, message = ''error'', body = Malformed\<rparr>"
      and b = "\<lparr>ison = False, brightness = 25\<rparr>" and error_message = "''unavailable''" and now = 120
      and d = fetch_in_flight2 and k = 0]
  note t3 = status_fetch_outcomes [where c = fetch_in_flight and n = 0 and error_code = "- 1"
      and r = "\<lparr>code = 503, message = ''error'', body = Json \<lparr>ison = True, brightness = 25\<rparr>\<rparr>"
      and b = "\<lparr>ison = True, brightness = 25\<rparr>" and error_message = "''unavailable''" and now = 120
      and d = fetch_in_flight2 and k = 0]
  have w1: "\<exists>c'. httpDone 0 (status_ok False 25) 0 [] 120 fetch_in_flight = Inr c' \<and>
         c_lightStatus c' = Some \<lparr>ison = False, brightness = 25\<rparr> \<and>
         c_state c' = Some WAITING_FOR_LONG_PUSH \<and>
         c_timers c' = [(380, False, OnLongPushTimer)] \<and> c_calls c' = []"
    using t1 a by (auto simp: status_ok_def long_push_delay_def)
  have w2: "httpDone 0 (status_error 503) 0 ''unavailable'' 120 fetch_in_flight =
     Inr (print [Str ''Failed to get light status'', Str ''unavailable'', Str ''error'']
            (fetch_in_flight\<lparr>c_calls := []\<rparr>))"
    using t2 a by (simp add: status_error_def)
  have w3: "\<exists>d'. httpDone2 0 (Some \<lparr>code = 503, message = ''error'',
                              body = Json \<lparr>ison = True, brightness = 25\<rparr>\<rparr>) (- 1) ''unavailable''
            120 fetch_in_flight2 = Inr d' \<and>
         d_lightIsOn d' = True \<and> d_state d' = Some WAITING_FOR_LONG_PUSH"
    using t3 b by auto
  show ?thesis
    using w1 w2 w3 by blast
qed

subsection \<open>Timers and the entry into \<^verbatim>\<open>IDLE\<close>\<close>

text \<open>What the two \<^verbatim>\<open>enterIdle\<close> functions do to the fields and to the armed timers.\<close>

lemma enterIdle_clears:
  "c_inputTriggerTime (enterIdle c) = 0 \<and> c_dimmerAction (enterIdle c) = DIMMER_ACTIONS_STOP \<and>
   c_timers (enterIdle c) = c_timers c"
  by (simp add: enterIdle_def)

lemma enterIdleR_clears:
  "r_inputTriggerTime (enterIdleR d) = 0 \<and> r_dimmerAction (enterIdleR d) = DIMMER_ACTIONS_STOP \<and>
   r_timers (enterIdleR d) =
     (case r_timerHandle d of None \<Rightarrow> r_timers d
      | Some h \<Rightarrow> filter (\<lambda>t. fst t \<noteq> h) (r_timers d))"
  by (simp add: enterIdleR_def Timer_clear_def split: option.splits)

text \<open>
  C4 does not hold of the code. Both \<^verbatim>\<open>enterIdle\<close> functions clear the trigger time and
  the direction, but the multi-binding one leaves every timer armed and the one of the
  script that ramps by itself clears only the timer whose handle is in
  \<^verbatim>\<open>DATA.timerHandle\<close>, the dimming loop; the handle of the long-push timer is never
  kept. So after a short press (press at 0, status at 120, release at 200) both machines
  are in \<^verbatim>\<open>IDLE\<close> with the 380 ms timer of that press still armed. A second press at
  300 whose status arrives at 350 arms its own timer for 450 ms more; the first timer
  fires at 500, 200 ms after that press began, and takes it out of
  \<^verbatim>\<open>WAITING_FOR_LONG_PUSH\<close>: to \<^verbatim>\<open>DIMMING\<close> in the script that ramps by itself (the
  light is on), to \<^verbatim>\<open>ENSURE_LIGHT_IS_ON\<close> in the multi-binding controller (the light is
  off there, and the request to switch it on is sent).
\<close>

theorem long_push_timer_survives_idle:
  "map_sum id (\<lambda>d. (r_state d, r_timers d))
     (stepsR [(0, InputR (press ''input:0'')), (120, HttpDoneR 0 (status_ok True 40) 0 []),
              (200, InputR (release ''input:0''))] DATAR)
     = Inr (IDLE, [(0, 380, False, OnLongPushTimerR)]) \<and>
   map_sum id (\<lambda>d. (r_state d, map fst (r_timers d)))
     (stepsR [(0, InputR (press ''input:0'')), (120, HttpDoneR 0 (status_ok True 40) 0 []),
              (200, InputR (release ''input:0'')),
              (300, InputR (press ''input:0'')), (350, HttpDoneR 1 (status_ok True 40) 0 []),
              (500, TimerFiredR 0)] DATAR)
     = Inr (DIMMING, [1, 2]) \<and>
   map_sum id (\<lambda>c. (c_state c, c_timers c))
     (steps [(0, Input (press ''input:0'')), (120, HttpDone 0 (status_ok True 40) 0 []),
             (200, Input (release ''input:0'')), (230, HttpDone 0 (status_ok False 40) 0 [])] front)
     = Inr (Some IDLE, [(380, False, OnLongPushTimer)]) \<and>
   map_sum id (\<lambda>c. (c_state c, c_timers c))
     (steps [(0, Input (press ''input:0'')), (120, HttpDone 0 (status_ok True 40) 0 []),
             (200, Input (release ''input:0'')), (230, HttpDone 0 (status_ok False 40) 0 []),
             (300, Input (press ''input:0'')), (350, HttpDone 0 (status_ok False 40) 0 []),
             (500, TimerFired 0)] front)
     = Inr (Some ENSURE_LIGHT_IS_ON, [(450, False, OnLongPushTimer)])"
proof -
  have r1: "map_sum id (\<lambda>d. (r_state d, r_timers d))
     (stepsR [(0, InputR (press ''input:0'')), (120, HttpDoneR 0 (status_ok True 40) 0 []),
              (200, InputR (release ''input:0''))] DATAR)
     = Inr (IDLE, [(0, 380, False, OnLongPushTimerR)])"
    by (simp add: runR_defs dataR_defs sample_defs DATAR_def)
  have r2: "map_sum id (\<lambda>d. (r_state d, map fst (r_timers d)))
     (stepsR [(0, InputR (press ''input:0'')), (120, HttpDoneR 0 (status_ok True 40) 0 []),
              (200, InputR (release ''input:0'')),
              (300, InputR (press ''input:0'')), (350, HttpDoneR 1 (status_ok True 40) 0 []),
              (500, TimerFiredR 0)] DATAR)
     = Inr (DIMMING, [1, 2])"
    by (simp add: runR_defs dataR_defs sample_defs DATAR_def)
  have c1: "map_sum id (\<lambda>c. (c_state c, c_timers c))
     (steps [(0, Input (press ''input:0'')), (120, HttpDone 0 (status_ok True 40) 0 []),
             (200, Input (release ''input:0'')), (230, HttpDone 0 (status_ok False 40) 0 [])] front)
     = Inr (Some IDLE, [(380, False, OnLongPushTimer)])"
    by (simp add: run_defs controller_defs sample_defs)
  have c2: "map_sum id (\<lambda>c. (c_state c, c_timers c))
     (steps [(0, Input (press ''input:0'')), (120, HttpDone 0 (status_ok True 40) 0 []),
             (200, Input (release ''input:0'')), (230, HttpDone 0 (status_ok False 40) 0 []),
             (300, Input (press ''input:0'')), (350, HttpDone 0 (status_ok False 40) 0 []),
             (500, TimerFired 0)] front)
     = Inr (Some ENSURE_LIGHT_IS_ON, [(450, False, OnLongPushTimer)])"
    by (simp add: run_defs controller_defs sample_defs)
  show ?thesis
    using r1 r2 c1 c2 by blast
qed

subsection \<open>The loader\<close>

lemmas loader_defs = lprint_def proceedIfAllProcessed_def set_auth_def

lemma process_configurations_plain:
  "list_all plain_auth rest \<Longrightarrow>
   \<exists>l'. process_configurations i rest l = Inr l' \<and>
        l_kvs l' = l_kvs l @ references i rest \<and>
        l_toProcess l' = l_toProcess l - (int (length rest) - int (length (references i rest))) \<and>
        l_configurations l' = l_configurations l \<and> l_app l' = l_app l"
proof (induction rest arbitrary: i l)
  case Nil
  then show ?case by simp
next
  case (Cons config rest)
  from Cons.prems have rest: "list_all plain_auth rest" and p: "plain_auth config"
    by simp_all
  from p obtain b where b: "is_reference (auth (dev config)) = Inr b"
    by (auto simp: plain_auth_def is_reference_def split: auth.splits)
  show ?case
  proof (cases b)
    case True
    let ?l = "(lprint [Str ''Getting device credentials from KVS'', id_text (cfg_id config),
                 Str (drop 1 (auth_text (auth (dev config))))] l)
              \<lparr>l_kvs := l_kvs l @ [(drop 1 (auth_text (auth (dev config))), i)]\<rparr>"
    from Cons.IH [OF rest, of "Suc i" ?l] True b show ?thesis
      by (auto simp: lprint_def Let_def)
  next
    case False
    from Cons.IH [OF rest, of "Suc i" "l\<lparr>l_toProcess := l_toProcess l - 1\<rparr>"] False b show ?thesis
      by auto
  qed
qed

lemma configuration_response_plain:
  assumes "list_all plain_auth configurations"
    and "reply_error_code reply = 0" and "reply_value reply = Some (Json configurations)"
  shows "\<exists>l1. configuration_response callback reply (getConfiguration u0) = Inr l1 \<and>
     l_kvs l1 = references 0 configurations \<and> l_configurations l1 = configurations \<and>
     settled callback u0 l1"
proof -
  let ?l0 = "(getConfiguration u0)\<lparr>l_configurations := configurations,
                                   l_toProcess := int (length configurations)\<rparr>"
  from process_configurations_plain [OF assms(1), of 0 ?l0]
  obtain l' where l': "process_configurations 0 configurations ?l0 = Inr l'"
    "l_kvs l' = references 0 configurations"
    "l_toProcess l' = int (length (references 0 configurations))"
    "l_configurations l' = configurations" "l_app l' = u0"
    by (auto simp: getConfiguration_def)
  then show ?thesis
    using assms(2,3)
    by (auto simp: configuration_response_def callOk_def JSON_parse_def proceedIfAllProcessed_def
        settled_def)
qed

lemma length_remove_nth: "n < length xs \<Longrightarrow> length (remove_nth n xs) = length xs - 1"
  by (simp add: remove_nth_def)

lemma set_remove_nth: "set (remove_nth n xs) \<subseteq> set xs"
  by (auto simp: remove_nth_def dest: in_set_takeD in_set_dropD)

lemma credentials_done_settled:
  assumes "settled callback u0 l"
    and "\<forall>entry \<in> set (l_kvs l). answerable (store (fst entry))"
  shows "\<exists>l'. credentials_done callback store n l = Inr l' \<and> settled callback u0 l' \<and>
         l_kvs l' = (if n < length (l_kvs l) then remove_nth n (l_kvs l) else l_kvs l) \<and>
         length (l_configurations l') = length (l_configurations l)"
proof (cases "n < length (l_kvs l)")
  case False
  with assms(1) show ?thesis
    by (simp add: credentials_done_def)
next
  case True
  then have ne: "l_kvs l \<noteq> []" by auto
  with assms(1) have tp: "l_toProcess l = int (length (l_kvs l))" and app: "l_app l = u0"
    by (simp_all add: settled_def)
  from True have "l_kvs l ! n \<in> set (l_kvs l)" by simp
  with assms(2) have ans: "answerable (store (fst (l_kvs l ! n)))" by blast
  have len: "length (remove_nth n (l_kvs l)) = length (l_kvs l) - 1"
    using True by (rule length_remove_nth)
  have empty: "remove_nth n (l_kvs l) = [] \<longleftrightarrow> length (l_kvs l) = 1"
    using len True by (cases "remove_nth n (l_kvs l)") auto
  show ?thesis
  proof (cases "callOk (reply_error_code (store (fst (l_kvs l ! n))))")
    case ok: True
    with ans obtain cr where "reply_value (store (fst (l_kvs l ! n))) = Some (Json cr)"
      by (auto simp: answerable_def split: option.splits json_text.splits)
    with ok True tp app len empty show ?thesis
      by (auto simp: credentials_done_def credentials_response_def JSON_parse_def loader_defs
          settled_def Let_def)
  next
    case bad: False
    with True tp app len empty show ?thesis
      by (auto simp: credentials_done_def credentials_response_def loader_defs settled_def Let_def)
  qed
qed

lemma credentials_all_settled:
  assumes "settled callback u0 l"
    and "\<forall>entry \<in> set (l_kvs l). answerable (store (fst entry))"
  shows "\<exists>l'. credentials_all callback store ns l = Inr l' \<and> settled callback u0 l' \<and>
         (in_flight_order ns (length (l_kvs l)) \<longrightarrow>
            length (l_kvs l') = length (l_kvs l) - length ns)"
  using assms
proof (induction ns arbitrary: l)
  case Nil
  then show ?case by simp
next
  case (Cons n ns)
  from credentials_done_settled [OF Cons.prems, of n]
  obtain l1 where l1: "credentials_done callback store n l = Inr l1" "settled callback u0 l1"
    "l_kvs l1 = (if n < length (l_kvs l) then remove_nth n (l_kvs l) else l_kvs l)"
    by blast
  have sub: "set (l_kvs l1) \<subseteq> set (l_kvs l)"
    using l1(3) set_remove_nth [of n "l_kvs l"] by (auto split: if_splits)
  with Cons.prems(2) have ans: "\<forall>entry \<in> set (l_kvs l1). answerable (store (fst entry))"
    by blast
  from Cons.IH [OF l1(2) ans]
  obtain l' where l': "credentials_all callback store ns l1 = Inr l'" "settled callback u0 l'"
    "in_flight_order ns (length (l_kvs l1)) \<longrightarrow> length (l_kvs l') = length (l_kvs l1) - length ns"
    by blast
  show ?case
    using l1 l' by (auto simp: length_remove_nth)
qed

lemma references_index:
  "(key, j) \<in> set (references i cfgs) \<Longrightarrow>
     i \<le> j \<and> j < i + length cfgs \<and> key = drop 1 (auth_text (auth (dev (cfgs ! (j - i)))))"
proof (induction cfgs arbitrary: i)
  case Nil
  then show ?case by simp
next
  case (Cons config rest)
  show ?case
  proof (cases "(key, j) \<in> set (references (Suc i) rest)")
    case True
    from Cons.IH [OF True] show ?thesis
      by (auto simp: Suc_diff_le)
  next
    case False
    with Cons.prems have "j = i" and "key = drop 1 (auth_text (auth (dev config)))"
      by (auto split: if_splits)
    then show ?thesis by simp
  qed
qed

lemma references_distinct: "distinct (map snd (references i cfgs))"
proof (induction cfgs arbitrary: i)
  case Nil
  then show ?case by simp
next
  case (Cons config rest)
  have "i \<notin> snd ` set (references (Suc i) rest)"
  proof
    assume "i \<in> snd ` set (references (Suc i) rest)"
    then obtain key where "(key, i) \<in> set (references (Suc i) rest)"
      by auto
    from references_index [OF this] show False
      by simp
  qed
  with Cons.IH [of "Suc i"] show ?case
    by simp
qed

lemma references_member:
  "j < length cfgs \<Longrightarrow> is_reference (auth (dev (cfgs ! j))) = Inr True \<Longrightarrow>
     (drop 1 (auth_text (auth (dev (cfgs ! j)))), i + j) \<in> set (references i cfgs)"
proof (induction cfgs arbitrary: i j)
  case Nil
  then show ?case by simp
next
  case (Cons config rest)
  show ?case
  proof (cases j)
    case 0
    with Cons.prems show ?thesis by simp
  next
    case (Suc j')
    with Cons.prems have "j' < length rest" and "is_reference (auth (dev (rest ! j'))) = Inr True"
      by simp_all
    from Cons.IH [OF this, of "Suc i"] Suc show ?thesis
      by simp
  qed
qed

lemma distinct_remove_nth: "distinct ys \<Longrightarrow> distinct (remove_nth n ys)"
  by (simp add: remove_nth_def set_take_disj_set_drop_if_distinct)

lemma map_remove_nth: "map f (remove_nth n xs) = remove_nth n (map f xs)"
  by (simp add: remove_nth_def take_map drop_map)

lemma distinct_map_remove_nth: "distinct (map f xs) \<Longrightarrow> distinct (map f (remove_nth n xs))"
  by (simp add: map_remove_nth distinct_remove_nth)

lemma remove_nth_keeps:
  assumes x: "x \<in> set xs" and n: "n < length xs" and ne: "x \<noteq> xs ! n"
  shows "x \<in> set (remove_nth n xs)"
proof -
  from n have d: "drop n xs = xs ! n # drop (Suc n) xs"
    by (simp add: Cons_nth_drop_Suc)
  have "set xs = set (take n xs) \<union> set (drop n xs)"
    by (metis append_take_drop_id set_append)
  with d x ne show ?thesis
    by (auto simp: remove_nth_def)
qed

lemma credentials_done_shape:
  assumes "n < length (l_kvs l)" and "credentials_done callback store n l = Inr l'"
  shows "l_kvs l' = remove_nth n (l_kvs l) \<and>
     (\<exists>a. l_configurations l' =
            (l_configurations l)[snd (l_kvs l ! n) := set_auth a (l_configurations l ! snd (l_kvs l ! n))] \<and>
          (\<not> callOk (reply_error_code (store (fst (l_kvs l ! n)))) \<longrightarrow> a = AuthNull))"
  using assms
  by (auto simp: credentials_done_def credentials_response_def proceedIfAllProcessed_def lprint_def
      Let_def split: if_splits option.splits sum.splits)

lemma set_auth_fields:
  "addr (dev (set_auth a config)) = addr (dev config) \<and> auth (dev (set_auth a config)) = a \<and>
   cfg_id (set_auth a config) = cfg_id config \<and> btn (set_auth a config) = btn config"
  by (simp add: set_auth_def)

lemma credentials_done_tracked:
  assumes tr: "tracked cfgs i l" and i: "i < length cfgs"
    and fail: "\<not> callOk (reply_error_code (store (drop 1 (auth_text (auth (dev (cfgs ! i)))))))"
    and run: "credentials_done callback store n l = Inr l'"
  shows "tracked cfgs i l'"
proof (cases "n < length (l_kvs l)")
  case False
  with run tr show ?thesis
    by (simp add: credentials_done_def)
next
  case True
  obtain key j where e: "l_kvs l ! n = (key, j)"
    by (cases "l_kvs l ! n")
  from True e have mem: "(key, j) \<in> set (l_kvs l)"
    by (metis nth_mem)
  with tr have "(key, j) \<in> set (references 0 cfgs)"
    by (auto simp: tracked_def)
  from references_index [OF this]
  have j: "j < length cfgs" and key: "key = drop 1 (auth_text (auth (dev (cfgs ! j))))"
    by simp_all
  from credentials_done_shape [OF True run] e
  obtain a where kvs: "l_kvs l' = remove_nth n (l_kvs l)"
    and cf: "l_configurations l' = (l_configurations l)[j := set_auth a (l_configurations l ! j)]"
    and a: "\<not> callOk (reply_error_code (store key)) \<longrightarrow> a = AuthNull"
    by auto
  from tr have len: "length (l_configurations l) = length cfgs"
    and dist: "distinct (map snd (l_kvs l))"
    and sub: "set (l_kvs l) \<subseteq> set (references 0 cfgs)"
    and ad: "addr (dev (l_configurations l ! i)) = addr (dev (cfgs ! i))"
      "cfg_id (l_configurations l ! i) = cfg_id (cfgs ! i)"
      "btn (l_configurations l ! i) = btn (cfgs ! i)"
    and pend: "i \<in> snd ` set (l_kvs l) \<or> auth (dev (l_configurations l ! i)) = AuthNull"
    by (simp_all add: tracked_def)
  have len': "length (l_configurations l') = length cfgs"
    using cf len by simp
  have dist': "distinct (map snd (l_kvs l'))"
    using kvs dist by (simp add: distinct_map_remove_nth)
  have sub': "set (l_kvs l') \<subseteq> set (references 0 cfgs)"
    using kvs sub set_remove_nth [of n "l_kvs l"] by auto
  have ad': "addr (dev (l_configurations l' ! i)) = addr (dev (cfgs ! i)) \<and>
      cfg_id (l_configurations l' ! i) = cfg_id (cfgs ! i) \<and>
      btn (l_configurations l' ! i) = btn (cfgs ! i)"
    using cf ad i len by (cases "j = i") (simp_all add: set_auth_fields)
  have pend': "i \<in> snd ` set (l_kvs l') \<or> auth (dev (l_configurations l' ! i)) = AuthNull"
  proof (cases "j = i")
    case True
    with key fail a have "a = AuthNull"
      by simp
    with cf True i len show ?thesis
      by (simp add: set_auth_fields)
  next
    case False
    show ?thesis
    proof (cases "i \<in> snd ` set (l_kvs l)")
      case True
      then obtain k where k: "(k, i) \<in> set (l_kvs l)"
        by auto
      with False e have "(k, i) \<noteq> l_kvs l ! n"
        by auto
      from remove_nth_keeps [OF k \<open>n < length (l_kvs l)\<close> this] kvs
      have "(k, i) \<in> set (l_kvs l')"
        by simp
      then have "i \<in> snd ` set (l_kvs l')"
        by force
      then show ?thesis ..
    next
      case False
      with pend have "auth (dev (l_configurations l ! i)) = AuthNull"
        by simp
      with cf \<open>j \<noteq> i\<close> show ?thesis
        by simp
    qed
  qed
  from len' dist' sub' ad' pend' show ?thesis
    by (simp add: tracked_def)
qed

lemma credentials_all_tracked:
  assumes "tracked cfgs i l" and "i < length cfgs"
    and "\<not> callOk (reply_error_code (store (drop 1 (auth_text (auth (dev (cfgs ! i)))))))"
    and "credentials_all callback store ns l = Inr l'"
  shows "tracked cfgs i l'"
  using assms
proof (induction ns arbitrary: l)
  case Nil
  then show ?case by simp
next
  case (Cons n ns)
  from Cons.prems(4) obtain l1 where l1: "credentials_done callback store n l = Inr l1"
    and rest: "credentials_all callback store ns l1 = Inr l'"
    by (auto split: sum.splits)
  from credentials_done_tracked [OF Cons.prems(1) Cons.prems(2) Cons.prems(3) l1]
  have "tracked cfgs i l1" .
  from Cons.IH [OF this Cons.prems(2) Cons.prems(3) rest] show ?case .
qed

lemma set_up_controllers:
  "controllers (set_up i cfgs a) =
     controllers a @
     map (\<lambda>(n, config). DimmerController (controller_id (cfg_id config) n) (btn config) (dev config))
       (zip [i..<i + length cfgs] cfgs)"
proof (induction cfgs arbitrary: i a)
  case Nil
  then show ?case by simp
next
  case (Cons config rest)
  have "[i..<i + length (config # rest)] = i # [Suc i..<Suc i + length rest]"
    using upt_conv_Cons [of i "i + length (config # rest)"] by simp
  with Cons.IH [of "Suc i"] show ?case
    by simp
qed

lemma main_callback_controllers:
  "length (controllers (main_callback cfgs \<lparr>controllers = [], app_log = []\<rparr>)) = length cfgs \<and>
   (j < length cfgs \<longrightarrow>
      controllers (main_callback cfgs \<lparr>controllers = [], app_log = []\<rparr>) ! j =
        DimmerController (controller_id (cfg_id (cfgs ! j)) j) (btn (cfgs ! j)) (dev (cfgs ! j)))"
  by (simp add: main_callback_def set_up_controllers Let_def)

lemma sendRequest_unauthenticated:
  "unauthenticated a c \<Longrightarrow> unauthenticated a (sendRequest path (c_deviceConfig c) cb c)"
  by (auto simp: unauthenticated_def sendRequest_def request_url_def auth_prefix_def)

lemma unauthenticated_fields:
  "unauthenticated a c \<Longrightarrow> c_deviceConfig c' = c_deviceConfig c \<Longrightarrow> c_calls c' = c_calls c \<Longrightarrow>
     unauthenticated a c'"
  by (simp add: unauthenticated_def)

lemma transitionTo_unauthenticated:
  assumes "unauthenticated a c" and "transitionTo now st c = Inr c'"
  shows "unauthenticated a c'"
  using assms
  by (cases st)
     (auto simp: transitionTo.simps enterEnsureLightIsOn.simps unauthenticated_def controller_defs
        request_url_def auth_prefix_def Let_def split: if_splits option.splits)

lemma unauthenticated_updates:
  "unauthenticated a (print args c) = unauthenticated a c"
  "unauthenticated a (c\<lparr>c_lightStatus := ls\<rparr>) = unauthenticated a c"
  "unauthenticated a (c\<lparr>c_inputTriggerTime := t\<rparr>) = unauthenticated a c"
  "unauthenticated a (c\<lparr>c_dimmerAction := act\<rparr>) = unauthenticated a c"
  "unauthenticated a (c\<lparr>c_timers := ts\<rparr>) = unauthenticated a c"
  by (simp_all add: unauthenticated_def print_def)

lemma unauthenticated_remove:
  "unauthenticated a c \<Longrightarrow> unauthenticated a (c\<lparr>c_calls := remove_nth n (c_calls c)\<rparr>)"
  using set_remove_nth [of n "c_calls c"] by (auto simp: unauthenticated_def)

lemma press_unauthenticated:
  assumes u1: "unauthenticated a c1"
    and run: "(case (if c_state c1 \<noteq> Some IDLE then transitionTo now IDLE c1 else Inr c1) of
                 Inl x \<Rightarrow> Inl x
               | Inr c2 \<Rightarrow>
                   transitionTo now GET_LIGHT_STATUS
                     (c2\<lparr>c_inputTriggerTime := now, c_dimmerAction := action\<rparr>)) = Inr c'"
  shows "unauthenticated a c'"
proof -
  from run obtain c2
    where c2: "(if c_state c1 \<noteq> Some IDLE then transitionTo now IDLE c1 else Inr c1) = Inr c2"
      and fin: "transitionTo now GET_LIGHT_STATUS
                  (c2\<lparr>c_inputTriggerTime := now, c_dimmerAction := action\<rparr>) = Inr c'"
    by (auto split: sum.splits)
  have "unauthenticated a c2"
  proof (cases "c_state c1 \<noteq> Some IDLE")
    case True
    with c2 have "transitionTo now IDLE c1 = Inr c2"
      by simp
    from transitionTo_unauthenticated [OF u1 this] show ?thesis .
  next
    case False
    with c2 u1 show ?thesis
      by simp
  qed
  then have "unauthenticated a (c2\<lparr>c_inputTriggerTime := now, c_dimmerAction := action\<rparr>)"
    by (simp add: unauthenticated_updates)
  from transitionTo_unauthenticated [OF this fin] show ?thesis .
qed

lemma release_unauthenticated:
  assumes u1: "unauthenticated a c1"
    and run: "(if c_state c1 = Some WAITING_FOR_LONG_PUSH \<or> c_state c1 = Some GET_LIGHT_STATUS
               then Inr (switchLight (c_deviceConfig c1) LIGHT_ACTIONS_TOGGLE OnToggled c1)
               else if c_state c1 = Some DIMMING
               then Inr (dimLight (c_deviceConfig c1) DIMMER_ACTIONS_STOP OnDimStopped c1)
               else transitionTo now IDLE c1) = Inr c'"
  shows "unauthenticated a c'"
proof -
  from run have "c' = switchLight (c_deviceConfig c1) LIGHT_ACTIONS_TOGGLE OnToggled c1 \<or>
        c' = dimLight (c_deviceConfig c1) DIMMER_ACTIONS_STOP OnDimStopped c1 \<or>
        transitionTo now IDLE c1 = Inr c'"
    by (auto split: if_splits)
  then show ?thesis
    using sendRequest_unauthenticated [OF u1] transitionTo_unauthenticated [OF u1]
    by (auto simp: switchLight_def dimLight_def)
qed

lemma handleInputEvent_unauthenticated:
  assumes u: "unauthenticated a c" and run: "handleInputEvent now e c = Inr c'"
  shows "unauthenticated a c'"
proof (cases "startsWith (component e) INPUT_COMPONENT_PREFIX")
  case False
  with run u show ?thesis
    by (simp add: handleInputEvent_def)
next
  case pre: True
  show ?thesis
  proof (cases "c_inputMapping c (drop (length INPUT_COMPONENT_PREFIX) (component e))")
    case None
    with run u pre show ?thesis
      by (simp add: handleInputEvent_def)
  next
    case (Some action)
    define c1 where "c1 = print [Str (''['' @ c_id c @ '']: ---> input event''), Str (component e),
                      (case delta_state e of None \<Rightarrow> Undefined | Some b \<Rightarrow> Bool b)] c"
    have u1: "unauthenticated a c1"
      using u by (simp add: c1_def unauthenticated_updates)
    have body: "handleInputEvent now e c =
                (case delta_state e of
                   Some True \<Rightarrow>
                     (case (if c_state c1 \<noteq> Some IDLE then transitionTo now IDLE c1 else Inr c1) of
                        Inl x \<Rightarrow> Inl x
                      | Inr c2 \<Rightarrow>
                          transitionTo now GET_LIGHT_STATUS
                            (c2\<lparr>c_inputTriggerTime := now, c_dimmerAction := action\<rparr>))
                 | Some False \<Rightarrow>
                     if c_state c1 = Some WAITING_FOR_LONG_PUSH \<or> c_state c1 = Some GET_LIGHT_STATUS
                     then Inr (switchLight (c_deviceConfig c1) LIGHT_ACTIONS_TOGGLE OnToggled c1)
                     else if c_state c1 = Some DIMMING
                     then Inr (dimLight (c_deviceConfig c1) DIMMER_ACTIONS_STOP OnDimStopped c1)
                     else transitionTo now IDLE c1
                 | None \<Rightarrow> Inr c1)"
      unfolding handleInputEvent_def c1_def Let_def using pre Some by simp
    from run have run1: "(case delta_state e of
                   Some True \<Rightarrow>
                     (case (if c_state c1 \<noteq> Some IDLE then transitionTo now IDLE c1 else Inr c1) of
                        Inl x \<Rightarrow> Inl x
                      | Inr c2 \<Rightarrow>
                          transitionTo now GET_LIGHT_STATUS
                            (c2\<lparr>c_inputTriggerTime := now, c_dimmerAction := action\<rparr>))
                 | Some False \<Rightarrow>
                     if c_state c1 = Some WAITING_FOR_LONG_PUSH \<or> c_state c1 = Some GET_LIGHT_STATUS
                     then Inr (switchLight (c_deviceConfig c1) LIGHT_ACTIONS_TOGGLE OnToggled c1)
                     else if c_state c1 = Some DIMMING
                     then Inr (dimLight (c_deviceConfig c1) DIMMER_ACTIONS_STOP OnDimStopped c1)
                     else transitionTo now IDLE c1
                 | None \<Rightarrow> Inr c1) = Inr c'"
      unfolding body .
    show ?thesis
    proof (cases "delta_state e")
      case None
      with run1 u1 show ?thesis
        by simp
    next
      case (Some b)
      show ?thesis
      proof (cases b)
        case True
        with run1 Some show ?thesis
          using press_unauthenticated [OF u1] by simp
      next
        case False
        with run1 Some show ?thesis
          using release_unauthenticated [OF u1] by simp
      qed
    qed
  qed
qed

lemma request_done_unauthenticated:
  assumes u: "unauthenticated a c"
    and run: "request_done rq response error_code error_message now c = Inr c'"
  shows "unauthenticated a c'"
proof (cases rq)
  case (GetLightStatus cb)
  with run u show ?thesis
    by (cases cb)
       (auto simp: getLightStatus_response_def failed_def unauthenticated_updates
          split: sum.splits if_splits option.splits
          dest!: transitionTo_unauthenticated [rotated])
next
  case (SwitchLight action cb)
  with run u show ?thesis
    by (cases cb)
       (auto simp: switchLight_response_def failed_def unauthenticated_updates
          split: sum.splits if_splits option.splits
          dest!: transitionTo_unauthenticated [rotated])
next
  case (DimLight action cb)
  with run u show ?thesis
    by (cases cb)
       (auto simp: dimLight_response_def failed_def unauthenticated_updates
          split: sum.splits if_splits option.splits
          dest!: transitionTo_unauthenticated [rotated])
qed

lemma step_unauthenticated:
  assumes u: "unauthenticated a c" and run: "step now ev c = Inr c'"
  shows "unauthenticated a c'"
proof (cases ev)
  case (Input e)
  with run have "handleInputEvent now e c = Inr c'"
    by simp
  from handleInputEvent_unauthenticated [OF u this] show ?thesis .
next
  case (HttpDone n response error_code error_message)
  show ?thesis
  proof (cases "n < length (c_calls c)")
    case True
    with run HttpDone have "request_done (snd (c_calls c ! n)) response error_code error_message now
        (c\<lparr>c_calls := remove_nth n (c_calls c)\<rparr>) = Inr c'"
      by (simp add: httpDone_def)
    from request_done_unauthenticated [OF unauthenticated_remove [OF u] this] show ?thesis .
  next
    case False
    with run HttpDone u show ?thesis
      by (simp add: httpDone_def)
  qed
next
  case (TimerFired n)
  show ?thesis
  proof (cases "n < length (c_timers c)")
    case True
    obtain delay rep cb where t: "c_timers c ! n = (delay, rep, cb)"
      by (cases "c_timers c ! n")
    with run TimerFired True
    have "transitionTo now ENSURE_LIGHT_IS_ON
            (if rep then c else c\<lparr>c_timers := remove_nth n (c_timers c)\<rparr>) = Inr c'"
      by (cases cb) (simp add: timerFired_def)
    moreover have "unauthenticated a (if rep then c else c\<lparr>c_timers := remove_nth n (c_timers c)\<rparr>)"
      using u by (simp add: unauthenticated_updates)
    ultimately show ?thesis
      by (rule transitionTo_unauthenticated [rotated])
  next
    case False
    with run TimerFired u show ?thesis
      by (simp add: timerFired_def)
  qed
qed

lemma steps_unauthenticated:
  "unauthenticated a c \<Longrightarrow> steps evs c = Inr c' \<Longrightarrow> unauthenticated a c'"
proof (induction evs arbitrary: c)
  case Nil
  then show ?case by simp
next
  case (Cons ev evs)
  obtain now e where ev: "ev = (now, e)"
    by (cases ev)
  with Cons.prems(2) obtain c1 where c1: "step now e c = Inr c1" and rest: "steps evs c1 = Inr c'"
    by (auto split: sum.splits)
  from step_unauthenticated [OF Cons.prems(1) c1] have "unauthenticated a c1" .
  from Cons.IH [OF this rest] show ?case .
qed

text \<open>
  C7, as the claim states it, fails for a configuration with inline credentials: the
  loop calls \<^verbatim>\<open>startsWith\<close> on the credentials object, which has no
  \<^verbatim>\<open>substring\<close>, and the exception leaves \<^verbatim>\<open>getConfiguration\<close>'s callback before
  \<^verbatim>\<open>proceedIfAllProcessed\<close> is reached; the ready callback never runs.
\<close>

theorem inline_credentials_counterexample:
  "configuration_response main_callback
     \<lparr>reply_value = Some (Json inline_configurations), reply_error_code = 0,
      reply_error_message = []\<rparr> main
   = Inl TypeError"
  by (simp add: configuration_response_def callOk_def JSON_parse_def inline_configurations_def
      is_reference_def)

text \<open>
  C7, amended. Let every \<^verbatim>\<open>dev.auth\<close> of the list be null or a string (any length of
  list, with or without references), and let the store answer every lookup the loop
  starts with a failure or with a value that parses. Then the configuration callback
  returns with exactly the lookups of the references in flight, and after any sequence
  of answers the ready callback has been applied to the script's state exactly once, to
  the configurations as they then are, if no lookup is in flight, and not at all if one
  is. Every answer to a lookup in flight takes one out of flight, so after as many
  answers as there are references none is left.
\<close>

theorem ready_callback_exactly_once:
  assumes "list_all plain_auth configurations"
    and "reply_error_code reply = 0" and "reply_value reply = Some (Json configurations)"
    and "\<forall>entry \<in> set (references 0 configurations). answerable (store (fst entry))"
  shows "\<exists>l1. configuration_response callback reply (getConfiguration u0) = Inr l1 \<and>
     l_kvs l1 = references 0 configurations \<and>
     (\<forall>ns. \<exists>l'. credentials_all callback store ns l1 = Inr l' \<and>
        l_app l' = (if l_kvs l' = [] then callback (l_configurations l') u0 else u0) \<and>
        (in_flight_order ns (length (references 0 configurations)) \<longrightarrow>
           length (l_kvs l') = length (references 0 configurations) - length ns))"
proof -
  from configuration_response_plain [OF assms(1-3), of callback u0]
  obtain l1 where l1: "configuration_response callback reply (getConfiguration u0) = Inr l1"
    "l_kvs l1 = references 0 configurations" "settled callback u0 l1"
    by blast
  have "\<exists>l'. credentials_all callback store ns l1 = Inr l' \<and>
        l_app l' = (if l_kvs l' = [] then callback (l_configurations l') u0 else u0) \<and>
        (in_flight_order ns (length (references 0 configurations)) \<longrightarrow>
           length (l_kvs l') = length (references 0 configurations) - length ns)" for ns
  proof -
    from credentials_all_settled [of callback u0 l1 store ns] l1(2,3) assms(4)
    obtain l' where l': "credentials_all callback store ns l1 = Inr l'" "settled callback u0 l'"
      "in_flight_order ns (length (references 0 configurations)) \<longrightarrow>
         length (l_kvs l') = length (references 0 configurations) - length ns"
      by auto
    from l'(2) have "l_app l' = (if l_kvs l' = [] then callback (l_configurations l') u0 else u0)"
      by (simp add: settled_def)
    with l'(1,3) show ?thesis by blast
  qed
  with l1 show ?thesis by blast
qed

lemma example_references:
  "references 0 example_configurations = [(''credentials1'', 0), (''credentials2'', 1)]"
  by (simp add: example_configurations_def is_reference_def startsWith_def auth_text_def)

lemma example_plain: "list_all plain_auth example_configurations"
  by (simp add: example_configurations_def plain_auth_def)

lemma example_answerable:
  "\<forall>entry \<in> set (references 0 example_configurations). answerable (example_store (fst entry))"
  by (simp add: example_references answerable_def example_store_def callOk_def)

theorem ready_callback_exactly_once_witness:
  "\<exists>l1. configuration_response main_callback example_reply main = Inr l1 \<and>
     l_kvs l1 = [(''credentials1'', 0), (''credentials2'', 1)] \<and>
     (\<exists>l'. credentials_all main_callback example_store [1] l1 = Inr l' \<and>
           length (l_kvs l') = 1 \<and> l_app l' = \<lparr>controllers = [], app_log = []\<rparr>) \<and>
     (\<exists>l'. credentials_all main_callback example_store [1, 0] l1 = Inr l' \<and>
           l_kvs l' = [] \<and>
           l_app l' = main_callback (l_configurations l') \<lparr>controllers = [], app_log = []\<rparr>)"
proof -
  have r: "reply_error_code example_reply = 0 \<and>
           reply_value example_reply = Some (Json example_configurations)"
    by (simp add: example_reply_def)
  from ready_callback_exactly_once [OF example_plain conjunct1 [OF r] conjunct2 [OF r]
      example_answerable, of main_callback "\<lparr>controllers = [], app_log = []\<rparr>"]
  obtain l1 where l1: "configuration_response main_callback example_reply
                         (getConfiguration \<lparr>controllers = [], app_log = []\<rparr>) = Inr l1"
    "l_kvs l1 = references 0 example_configurations"
    and all: "\<forall>ns. \<exists>l'. credentials_all main_callback example_store ns l1 = Inr l' \<and>
        l_app l' = (if l_kvs l' = [] then main_callback (l_configurations l')
                                            \<lparr>controllers = [], app_log = []\<rparr>
                    else \<lparr>controllers = [], app_log = []\<rparr>) \<and>
        (in_flight_order ns (length (references 0 example_configurations)) \<longrightarrow>
           length (l_kvs l') = length (references 0 example_configurations) - length ns)"
    by blast
  from all obtain la where la0: "credentials_all main_callback example_store [1] l1 = Inr la \<and>
        l_app la = (if l_kvs la = [] then main_callback (l_configurations la)
                                            \<lparr>controllers = [], app_log = []\<rparr>
                    else \<lparr>controllers = [], app_log = []\<rparr>) \<and>
        (in_flight_order [1] (length (references 0 example_configurations)) \<longrightarrow>
           length (l_kvs la) = length (references 0 example_configurations) - length [1::nat])"
    by blast
  then have la: "credentials_all main_callback example_store [1] l1 = Inr la"
    "length (l_kvs la) = 1" "l_app la = \<lparr>controllers = [], app_log = []\<rparr>"
    by (auto simp: example_references)
  from all obtain lb where lb0: "credentials_all main_callback example_store [1, 0] l1 = Inr lb \<and>
        l_app lb = (if l_kvs lb = [] then main_callback (l_configurations lb)
                                            \<lparr>controllers = [], app_log = []\<rparr>
                    else \<lparr>controllers = [], app_log = []\<rparr>) \<and>
        (in_flight_order [1, 0] (length (references 0 example_configurations)) \<longrightarrow>
           length (l_kvs lb) = length (references 0 example_configurations) - length [1, 0::nat])"
    by blast
  then have lb: "credentials_all main_callback example_store [1, 0] l1 = Inr lb"
    "l_kvs lb = []" "l_app lb = main_callback (l_configurations lb) \<lparr>controllers = [], app_log = []\<rparr>"
    by (auto simp: example_references)
  from l1 have l1': "configuration_response main_callback example_reply main = Inr l1"
    "l_kvs l1 = [(''credentials1'', 0), (''credentials2'', 1)]"
    by (simp_all add: main_def example_references)
  from l1' la lb show ?thesis
    by blast
qed

subsection \<open>A binding whose credentials cannot be fetched\<close>

lemma failed_lookup_run:
  assumes "list_all plain_auth configurations"
    and "reply_error_code reply = 0" and "reply_value reply = Some (Json configurations)"
    and "\<forall>entry \<in> set (references 0 configurations). answerable (store (fst entry))"
    and "i < length configurations"
    and "is_reference (auth (dev (configurations ! i))) = Inr True"
    and "\<not> callOk (reply_error_code (store (drop 1 (auth_text (auth (dev (configurations ! i)))))))"
    and "in_flight_order ns (length (references 0 configurations))"
    and "length ns = length (references 0 configurations)"
  shows "\<exists>l1 l'. configuration_response main_callback reply main = Inr l1 \<and>
      credentials_all main_callback store ns l1 = Inr l' \<and>
      auth (dev (l_configurations l' ! i)) = AuthNull \<and>
      length (controllers (l_app l')) = length configurations \<and>
      controllers (l_app l') ! i =
        DimmerController (controller_id (cfg_id (configurations ! i)) i) (btn (configurations ! i))
          \<lparr>addr = addr (dev (configurations ! i)), auth = AuthNull\<rparr> \<and>
      (\<forall>evs c'. steps evs (controllers (l_app l') ! i) = Inr c' \<longrightarrow>
         (\<forall>call \<in> set (c_calls c').
            \<exists>path. fst call = ''http://'' @ addr (dev (configurations ! i)) @ ''/'' @ path))"
proof -
  let ?u0 = "\<lparr>controllers = [], app_log = []\<rparr>"
  let ?a = "addr (dev (configurations ! i))"
  from configuration_response_plain [OF assms(1-3), of main_callback ?u0]
  obtain l1 where l1: "configuration_response main_callback reply main = Inr l1"
    and kvs1: "l_kvs l1 = references 0 configurations"
    and cfg1: "l_configurations l1 = configurations"
    and set1: "settled main_callback ?u0 l1"
    by (auto simp: main_def)
  have "(drop 1 (auth_text (auth (dev (configurations ! i)))), 0 + i) \<in> set (references 0 configurations)"
    using assms(5,6) by (rule references_member)
  then have "i \<in> snd ` set (references 0 configurations)"
    by force
  then have tr1: "tracked configurations i l1"
    by (simp add: tracked_def kvs1 cfg1 references_distinct)
  from credentials_all_settled [OF set1, of store ns] kvs1 assms(4,8,9)
  obtain l' where l': "credentials_all main_callback store ns l1 = Inr l'"
    and set': "settled main_callback ?u0 l'" and kvs': "l_kvs l' = []"
    by auto
  from credentials_all_tracked [OF tr1 assms(5) assms(7) l'] kvs'
  have len: "length (l_configurations l') = length configurations"
    and ad: "addr (dev (l_configurations l' ! i)) = ?a"
    and idb: "cfg_id (l_configurations l' ! i) = cfg_id (configurations ! i)"
      "btn (l_configurations l' ! i) = btn (configurations ! i)"
    and au: "auth (dev (l_configurations l' ! i)) = AuthNull"
    by (simp_all add: tracked_def)
  from set' kvs' have app: "l_app l' = main_callback (l_configurations l') ?u0"
    by (simp add: settled_def)
  from main_callback_controllers [of "l_configurations l'" i] len assms(5)
  have n: "length (controllers (l_app l')) = length configurations"
    and c: "controllers (l_app l') ! i =
      DimmerController (controller_id (cfg_id (l_configurations l' ! i)) i)
        (btn (l_configurations l' ! i)) (dev (l_configurations l' ! i))"
    by (simp_all add: app)
  have d: "dev (l_configurations l' ! i) = \<lparr>addr = ?a, auth = AuthNull\<rparr>"
    using ad au by (cases "dev (l_configurations l' ! i)") simp
  have dc: "controllers (l_app l') ! i =
        DimmerController (controller_id (cfg_id (configurations ! i)) i) (btn (configurations ! i))
          \<lparr>addr = ?a, auth = AuthNull\<rparr>"
    by (simp add: c d idb)
  have u: "unauthenticated ?a (controllers (l_app l') ! i)"
    by (simp add: unauthenticated_def c d DimmerController_def)
  have calls: "\<forall>evs c'. steps evs (controllers (l_app l') ! i) = Inr c' \<longrightarrow>
         (\<forall>call \<in> set (c_calls c'). \<exists>path. fst call = ''http://'' @ ?a @ ''/'' @ path)"
    using steps_unauthenticated [OF u] by (simp add: unauthenticated_def)
  from l1 l' au n dc calls show ?thesis
    by blast
qed

text \<open>
  C9, as the claim states it, fails when another binding of the list cannot be loaded.
  With the header's two bindings and a store in which the second credentials are
  missing and the first do not parse: once the second lookup has failed the second
  binding has no credentials and no controller exists; the answer to the first lookup
  then throws out of its callback before \<^verbatim>\<open>toProcess\<close> is counted down, so
  \<^verbatim>\<open>main\<close>'s callback never runs and the second binding never gets its controller.
  With inline credentials in the second binding and a missing reference in the first,
  the loop itself throws.
\<close>

theorem failed_lookup_without_controller_counterexample:
  "map_sum id (\<lambda>l. (auth (dev (l_configurations l ! 1)), controllers (l_app l)))
     (start example_reply unparseable_store [1]) = Inr (AuthNull, []) \<and>
   start example_reply unparseable_store [1, 0] = Inl SyntaxError \<and>
   start \<lparr>reply_value = Some (Json mixed_configurations), reply_error_code = 0,
          reply_error_message = []\<rparr> example_store [] = Inl TypeError"
proof -
  have a: "map_sum id (\<lambda>l. (auth (dev (l_configurations l ! 1)), controllers (l_app l)))
     (start example_reply unparseable_store [1]) = Inr (AuthNull, [])"
    by (simp add: start_def main_def getConfiguration_def configuration_response_def
        credentials_done_def credentials_response_def callOk_def JSON_parse_def is_reference_def
        startsWith_def auth_text_def loader_defs remove_nth_def example_reply_def
        example_configurations_def unparseable_store_def Let_def)
  have b: "start example_reply unparseable_store [1, 0] = Inl SyntaxError"
    by (simp add: start_def main_def getConfiguration_def configuration_response_def
        credentials_done_def credentials_response_def callOk_def JSON_parse_def is_reference_def
        startsWith_def auth_text_def loader_defs remove_nth_def example_reply_def
        example_configurations_def unparseable_store_def Let_def)
  have c: "start \<lparr>reply_value = Some (Json mixed_configurations), reply_error_code = 0,
          reply_error_message = []\<rparr> example_store [] = Inl TypeError"
    by (simp add: start_def main_def getConfiguration_def configuration_response_def
        callOk_def JSON_parse_def is_reference_def startsWith_def auth_text_def loader_defs
        mixed_configurations_def Let_def)
  from a b c show ?thesis
    by blast
qed

text \<open>
  C9, amended. The callback of a lookup that failed sets the credential of its binding
  to null, whatever the rest of the list. If moreover every \<^verbatim>\<open>dev.auth\<close> of the list
  is null or a string and every lookup that succeeds returns a value that parses (the
  conditions of the amended C7), then, all lookups being answered in any order, the
  loader finishes without exception, the credential of binding \<open>i\<close> is null,
  \<^verbatim>\<open>main\<close> has built one controller per binding, the controller of binding \<open>i\<close> is
  the one \<^verbatim>\<open>new DimmerController\<close> makes from the binding's name, buttons and address
  without credentials, and whatever inputs, responses and timers it is given
  afterwards, every call it has in flight goes to \<^verbatim>\<open>http://\<close> followed directly by
  that address, \<^verbatim>\<open>/\<close> and the path.
\<close>

theorem failed_lookup_leaves_binding_unauthenticated:
  "(\<not> callOk (reply_error_code r) \<and> i < length (l_configurations l) \<longrightarrow>
      (\<exists>l'. credentials_response callback i r l = Inr l' \<and>
            auth (dev (l_configurations l' ! i)) = AuthNull)) \<and>
   (list_all plain_auth configurations \<and>
    reply_error_code reply = 0 \<and> reply_value reply = Some (Json configurations) \<and>
    (\<forall>entry \<in> set (references 0 configurations). answerable (store (fst entry))) \<and>
    i < length configurations \<and>
    is_reference (auth (dev (configurations ! i))) = Inr True \<and>
    \<not> callOk (reply_error_code (store (drop 1 (auth_text (auth (dev (configurations ! i))))))) \<and>
    in_flight_order ns (length (references 0 configurations)) \<and>
    length ns = length (references 0 configurations) \<longrightarrow>
      (\<exists>l1 l'. configuration_response main_callback reply main = Inr l1 \<and>
         credentials_all main_callback store ns l1 = Inr l' \<and>
         auth (dev (l_configurations l' ! i)) = AuthNull \<and>
         length (controllers (l_app l')) = length configurations \<and>
         controllers (l_app l') ! i =
           DimmerController (controller_id (cfg_id (configurations ! i)) i) (btn (configurations ! i))
             \<lparr>addr = addr (dev (configurations ! i)), auth = AuthNull\<rparr> \<and>
         (\<forall>evs c'. steps evs (controllers (l_app l') ! i) = Inr c' \<longrightarrow>
            (\<forall>call \<in> set (c_calls c').
               \<exists>path. fst call = ''http://'' @ addr (dev (configurations ! i)) @ ''/'' @ path))))"
proof (intro conjI impI)
  assume "\<not> callOk (reply_error_code r) \<and> i < length (l_configurations l)"
  then show "\<exists>l'. credentials_response callback i r l = Inr l' \<and>
            auth (dev (l_configurations l' ! i)) = AuthNull"
    by (simp add: credentials_response_def loader_defs Let_def)
next
  assume h: "list_all plain_auth configurations \<and>
    reply_error_code reply = 0 \<and> reply_value reply = Some (Json configurations) \<and>
    (\<forall>entry \<in> set (references 0 configurations). answerable (store (fst entry))) \<and>
    i < length configurations \<and>
    is_reference (auth (dev (configurations ! i))) = Inr True \<and>
    \<not> callOk (reply_error_code (store (drop 1 (auth_text (auth (dev (configurations ! i))))))) \<and>
    in_flight_order ns (length (references 0 configurations)) \<and>
    length ns = length (references 0 configurations)"
  then show "\<exists>l1 l'. configuration_response main_callback reply main = Inr l1 \<and>
         credentials_all main_callback store ns l1 = Inr l' \<and>
         auth (dev (l_configurations l' ! i)) = AuthNull \<and>
         length (controllers (l_app l')) = length configurations \<and>
         controllers (l_app l') ! i =
           DimmerController (controller_id (cfg_id (configurations ! i)) i) (btn (configurations ! i))
             \<lparr>addr = addr (dev (configurations ! i)), auth = AuthNull\<rparr> \<and>
         (\<forall>evs c'. steps evs (controllers (l_app l') ! i) = Inr c' \<longrightarrow>
            (\<forall>call \<in> set (c_calls c').
               \<exists>path. fst call = ''http://'' @ addr (dev (configurations ! i)) @ ''/'' @ path))"
    by (intro failed_lookup_run) simp_all
qed

theorem failed_lookup_leaves_binding_unauthenticated_witness:
  "(\<exists>l'. credentials_response main_callback 1 (example_store ''credentials2'')
           (main\<lparr>l_configurations := example_configurations, l_toProcess := 2\<rparr>) = Inr l' \<and>
         auth (dev (l_configurations l' ! 1)) = AuthNull) \<and>
   (\<exists>l1 l'. configuration_response main_callback example_reply main = Inr l1 \<and>
      credentials_all main_callback example_store [1, 0] l1 = Inr l' \<and>
      auth (dev (l_configurations l' ! 1)) = AuthNull \<and>
      length (controllers (l_app l')) = 2 \<and>
      c_deviceConfig (controllers (l_app l') ! 1) = \<lparr>addr = ''192.168.3.128'', auth = AuthNull\<rparr> \<and>
      map_sum id (\<lambda>c. map fst (c_calls c))
        (steps [(0, Input (press ''input:3''))] (controllers (l_app l') ! 1))
        = Inr [''http://192.168.3.128/light/0''])"
proof -
  note t = failed_lookup_leaves_binding_unauthenticated [where r = "example_store ''credentials2''"
      and i = 1 and l = "main\<lparr>l_configurations := example_configurations, l_toProcess := 2\<rparr>"
      and callback = main_callback and configurations = example_configurations
      and reply = example_reply and store = example_store and ns = "[1, 0]"]
  have f: "\<not> callOk (reply_error_code (example_store ''credentials2'')) \<and>
           1 < length (l_configurations (main\<lparr>l_configurations := example_configurations,
                                               l_toProcess := 2\<rparr>))"
    by (simp add: example_store_def callOk_def example_configurations_def)
  from t f have first: "\<exists>l'. credentials_response main_callback 1 (example_store ''credentials2'')
           (main\<lparr>l_configurations := example_configurations, l_toProcess := 2\<rparr>) = Inr l' \<and>
         auth (dev (l_configurations l' ! 1)) = AuthNull"
    by blast
  have r: "reply_error_code example_reply = 0 \<and>
           reply_value example_reply = Some (Json example_configurations)"
    by (simp add: example_reply_def)
  have i: "1 < length example_configurations"
    by (simp add: example_configurations_def)
  have ref: "is_reference (auth (dev (example_configurations ! 1))) = Inr True"
    by (simp add: example_configurations_def is_reference_def startsWith_def)
  have fail: "\<not> callOk (reply_error_code
                (example_store (drop 1 (auth_text (auth (dev (example_configurations ! 1)))))))"
    by (simp add: example_configurations_def auth_text_def example_store_def callOk_def)
  have ord: "in_flight_order [1, 0] (length (references 0 example_configurations))"
    by (simp add: example_references)
  have len: "length [1, 0::nat] = length (references 0 example_configurations)"
    by (simp add: example_references)
  from t example_plain r example_answerable i ref fail ord len
  obtain l1 l' where l1: "configuration_response main_callback example_reply main = Inr l1"
    and l': "credentials_all main_callback example_store [1, 0] l1 = Inr l'"
    and au: "auth (dev (l_configurations l' ! 1)) = AuthNull"
    and n: "length (controllers (l_app l')) = length example_configurations"
    and c: "controllers (l_app l') ! 1 =
        DimmerController (controller_id (cfg_id (example_configurations ! 1)) 1)
          (btn (example_configurations ! 1))
          \<lparr>addr = addr (dev (example_configurations ! 1)), auth = AuthNull\<rparr>"
    by blast
  have c': "controllers (l_app l') ! 1 =
      DimmerController ''back'' [''2'' \<mapsto> DIMMER_ACTIONS_DOWN, ''3'' \<mapsto> DIMMER_ACTIONS_UP]
        \<lparr>addr = ''192.168.3.128'', auth = AuthNull\<rparr>"
    unfolding c by (simp add: example_configurations_def controller_id_def)
  have dc: "c_deviceConfig (controllers (l_app l') ! 1) = \<lparr>addr = ''192.168.3.128'', auth = AuthNull\<rparr>"
    unfolding c' by (simp add: DimmerController_def)
  have run: "map_sum id (\<lambda>c. map fst (c_calls c))
        (steps [(0, Input (press ''input:3''))] (controllers (l_app l') ! 1))
        = Inr [''http://192.168.3.128/light/0'']"
    unfolding c' by (simp add: run_defs controller_defs DimmerController_def press_def)
  have n': "length (controllers (l_app l')) = 2"
    using n by (simp add: example_configurations_def)
  from first l1 l' au n' dc run show ?thesis
    by blast
qed

end
